theory Spec2Isabelle
  imports Complex_Main
begin

section \<open>PDFImager: one image per page of a PDF, converted on a worker thread\<close>

text \<open>
  The development embeds \<^verbatim>\<open>src/pdf_imager.py\<close>: the three methods of
  \<^verbatim>\<open>PDFImagerApp\<close> that make up a conversion (\<^verbatim>\<open>_start_conversion\<close>,
  \<^verbatim>\<open>_convert\<close> and the callbacks \<^verbatim>\<open>_update_progress\<close>,
  \<^verbatim>\<open>_conversion_done\<close>, \<^verbatim>\<open>_conversion_error\<close>), the standard library
  functions they call on strings and paths, and the file system they act on. PyMuPDF is a
  parameter: a record of the three operations the program uses.
\<close>

subsection \<open>Strings\<close>

text \<open>An exception is kept as the text \<^verbatim>\<open>str(e)\<close> gives.\<close>

type_synonym exn = string

text \<open>
  \<^verbatim>\<open>str.strip()\<close> removes leading and trailing white space. A character is a code
  point below 256 here; the white space among these are the codes 9 to 13, 28 to 32, 133
  and 160.
\<close>

definition is_space :: "char \<Rightarrow> bool" where
  "is_space c = (of_char c \<in> {9, 10, 11, 12, 13, 28, 29, 30, 31, 32, 133, 160 :: nat})"

definition strip :: "string \<Rightarrow> string" where
  "strip s = rev (dropWhile is_space (rev (dropWhile is_space s)))"

text \<open>\<^verbatim>\<open>str.lower()\<close> and \<^verbatim>\<open>str.upper()\<close> on ASCII letters.\<close>

definition lower_char :: "char \<Rightarrow> char" where
  "lower_char c =
     (if 65 \<le> (of_char c :: nat) \<and> (of_char c :: nat) \<le> 90
      then char_of (of_char c + (32 :: nat)) else c)"

definition upper_char :: "char \<Rightarrow> char" where
  "upper_char c =
     (if 97 \<le> (of_char c :: nat) \<and> (of_char c :: nat) \<le> 122
      then char_of (of_char c - (32 :: nat)) else c)"

definition lower :: "string \<Rightarrow> string" where
  "lower s = map lower_char s"

definition upper :: "string \<Rightarrow> string" where
  "upper s = map upper_char s"

text \<open>
  The format specification \<^verbatim>\<open>04d\<close> of \<^verbatim>\<open>f"{i:04d}"\<close>: the decimal digits of
  \<open>i\<close>, filled with zeros on the left up to four characters. A number of five or more
  digits is printed in full.
\<close>

definition digit_char :: "nat \<Rightarrow> char" where
  "digit_char k = char_of (48 + k)"

fun dec :: "nat \<Rightarrow> string" where
  "dec n = (if n < 10 then [digit_char n] else dec (n div 10) @ [digit_char (n mod 10)])"

declare dec.simps [simp del]

definition fmt04d :: "nat \<Rightarrow> string" where
  "fmt04d i = replicate (4 - length (dec i)) (CHR ''0'') @ dec i"

text \<open>The number a string of decimal digits denotes; the inverse of \<^const>\<open>dec\<close>.\<close>

definition digit_val :: "char \<Rightarrow> nat" where
  "digit_val c = of_char c - 48"

definition undec :: "string \<Rightarrow> nat" where
  "undec s = foldl (\<lambda>a c. 10 * a + digit_val c) 0 s"

subsection \<open>Paths (\<^verbatim>\<open>posixpath\<close>)\<close>

text \<open>\<^verbatim>\<open>os.path.basename(p)\<close>: what follows the last slash.\<close>

definition basename :: "string \<Rightarrow> string" where
  "basename p = rev (takeWhile (\<lambda>c. c \<noteq> CHR ''/'') (rev p))"

text \<open>
  \<^verbatim>\<open>os.path.splitext(p)[0]\<close>: the path without its extension. The extension starts at
  the last dot of the last component, unless only dots stand before it in that component.
\<close>

definition splitext_root :: "string \<Rightarrow> string" where
  "splitext_root p =
     (let name = basename p;
          stem = rev (drop 1 (dropWhile (\<lambda>c. c \<noteq> CHR ''.'') (rev name)))
      in if CHR ''.'' \<in> set name \<and> list_ex (\<lambda>c. c \<noteq> CHR ''.'') stem
         then take (length p - length name) p @ stem
         else p)"

text \<open>\<^verbatim>\<open>os.path.join(a, b)\<close>.\<close>

definition path_join :: "string \<Rightarrow> string \<Rightarrow> string" where
  "path_join a b =
     (if b \<noteq> [] \<and> hd b = CHR ''/'' then b
      else if a = [] \<or> last a = CHR ''/'' then a @ b
      else a @ ''/'' @ b)"

subsection \<open>The file system\<close>

text \<open>
  A disk maps a path to what is stored there: a directory, a regular file such as the
  source PDF, or an image that \<^verbatim>\<open>pix.save\<close> wrote.
\<close>

datatype 'x node = Dir | Plain | Image 'x

type_synonym 'x disk = "string \<Rightarrow> 'x node option"

definition isfile :: "'x disk \<Rightarrow> string \<Rightarrow> bool" where
  "isfile d p = (case d p of None \<Rightarrow> False | Some Dir \<Rightarrow> False | Some _ \<Rightarrow> True)"

definition isdir :: "'x disk \<Rightarrow> string \<Rightarrow> bool" where
  "isdir d p = (d p = Some Dir)"

text \<open>
  The directories above a path: its prefixes that end before a slash (the root itself
  left out).
\<close>

definition parents :: "string \<Rightarrow> string list" where
  "parents p =
     filter (\<lambda>a. a \<noteq> [] \<and> last a \<noteq> CHR ''/'')
       (map (\<lambda>i. take i p) (filter (\<lambda>i. p ! i = CHR ''/'') [0..<length p]))"

text \<open>
  \<^verbatim>\<open>os.makedirs(out, exist_ok=True)\<close> goes down from the topmost directory above the
  path to the path itself. The operating system can refuse a path for a reason that the
  disk does not show (a name that is too long, a directory it may not write to, a NUL
  byte): \<open>refuses a\<close> is the exception it raises for \<open>a\<close> then. Otherwise a directory that
  is already there is left as it is, a missing one is created, and a regular file in the
  way raises: \<^verbatim>\<open>FileExistsError\<close> when it is the path itself,
  \<^verbatim>\<open>NotADirectoryError\<close> when it stands above the path. The result is the exception, if
  one was raised, and the disk as it is left: the directories created before the failure
  stay.
\<close>

type_synonym refusal = "string \<Rightarrow> exn option"

fun mkdir_all :: "refusal \<Rightarrow> string list \<Rightarrow> 'x disk \<Rightarrow> exn option \<times> 'x disk" where
  "mkdir_all refuses [] d = (None, d)"
| "mkdir_all refuses (a # rest) d =
     (case refuses a of
        Some e \<Rightarrow> (Some e, d)
      | None \<Rightarrow>
          (case d a of
             None \<Rightarrow> mkdir_all refuses rest (d(a \<mapsto> Dir))
           | Some Dir \<Rightarrow> mkdir_all refuses rest d
           | Some _ \<Rightarrow>
               (Some (if rest = [] then ''FileExistsError'' else ''NotADirectoryError''), d)))"

definition makedirs :: "refusal \<Rightarrow> string \<Rightarrow> 'x disk \<Rightarrow> exn option \<times> 'x disk" where
  "makedirs refuses p d = mkdir_all refuses (parents p @ [p]) d"

subsection \<open>The rendering engine\<close>

text \<open>
  PyMuPDF as the program uses it: \<^verbatim>\<open>fitz.open(path)\<close> gives the pages of a document or
  raises; \<^verbatim>\<open>page.get_pixmap(matrix=mat)\<close> gives a pixel buffer or raises;
  \<^verbatim>\<open>pix.save(file)\<close> writes the buffer or raises. \<^verbatim>\<open>fitz.Matrix(zoom, zoom)\<close> is the
  pair of its two scale factors. Python's floating point division is exact division of
  rationals here; the double that the program computes is the one nearest to this
  quotient.
\<close>

type_synonym matrix = "rat \<times> rat"

record ('p, 'x) engine =
  fitz_open :: "string \<Rightarrow> exn + 'p list"
  get_pixmap :: "'p \<Rightarrow> matrix \<Rightarrow> exn + 'x"
  pix_save :: "'x \<Rightarrow> string \<Rightarrow> exn option"

subsection \<open>The application object\<close>

text \<open>
  The texts the program shows are kept by what they say: the status label, the lines of
  the log, and the message boxes.
\<close>

datatype status_text = Waiting | Converting nat nat | Completed | ErrorStatus

datatype log_line =
    LogStart nat int string
  | LogPage nat nat string
  | LogDone nat string
  | LogError exn

datatype dialog =
    ErrorSelectPdf
  | ErrorSpecifyOutput
  | ErrorText exn
  | InfoSaved nat

record app =
  pdf_path :: string
  output_dir :: string
  dpi :: int
  fmt :: string
  is_running :: bool
  btn_run_enabled :: bool
  progress_maximum :: nat
  progress_value :: nat
  label_status :: status_text
  text_log :: "log_line list"
  dialogs :: "dialog list"

text \<open>\<^verbatim>\<open>_log\<close> appends a line to the log widget.\<close>

definition app_log :: "log_line \<Rightarrow> app \<Rightarrow> app" where
  "app_log msg self = self\<lparr>text_log := text_log self @ [msg]\<rparr>"

subsection \<open>\<^verbatim>\<open>_start_conversion\<close>\<close>

text \<open>
  What a call of \<^verbatim>\<open>_start_conversion\<close> ends with: it returns (having shown a message
  box or not: the boxes are in \<^const>\<open>dialogs\<close>), it lets the exception of
  \<^verbatim>\<open>os.makedirs\<close> escape, or it has started the worker thread on
  \<^verbatim>\<open>_convert(pdf, out)\<close>.
\<close>

datatype outcome = Returned | Raised exn | Spawned string string

definition start_conversion ::
  "refusal \<Rightarrow> app \<Rightarrow> 'x disk \<Rightarrow> outcome \<times> app \<times> 'x disk" where
  "start_conversion refuses self d =
     (let pdf = strip (pdf_path self);
          out = strip (output_dir self)
      in if pdf = [] \<or> \<not> isfile d pdf
         then (Returned, self\<lparr>dialogs := dialogs self @ [ErrorSelectPdf]\<rparr>, d)
         else if out = []
         then (Returned, self\<lparr>dialogs := dialogs self @ [ErrorSpecifyOutput]\<rparr>, d)
         else if is_running self
         then (Returned, self, d)
         else (case makedirs refuses out d of
                 (Some e, d') \<Rightarrow> (Raised e, self, d')
               | (None, d') \<Rightarrow>
                   (Spawned pdf out, self\<lparr>is_running := True, btn_run_enabled := False\<rparr>, d')))"

subsection \<open>\<^verbatim>\<open>_convert\<close>, the worker\<close>

text \<open>
  The callbacks the worker hands to \<^verbatim>\<open>root.after(0, ...)\<close>, in the order of the source.
  The first four carry the values their lambdas hold (\<^verbatim>\<open>total\<close>, written \<open>tot\<close> here,
  \<^verbatim>\<open>dpi\<close>, \<^verbatim>\<open>ext\<close> and \<^verbatim>\<open>output_dir\<close> are never assigned again; \<^verbatim>\<open>v=i\<close> and
  \<^verbatim>\<open>f=out_file\<close> are bound as defaults when the lambda is made). The last one,
  \<^verbatim>\<open>lambda: self._conversion_error(str(e))\<close>, carries nothing: it reads the name \<open>e\<close> of
  the worker's frame when it runs.
\<close>

datatype callback =
    ConfigureProgress nat
  | LogStarted nat int string
  | UpdateProgress nat nat string
  | ConversionDone nat string
  | ConversionError

text \<open>What the worker does, step by step.\<close>

datatype action =
    FitzOpen string
  | GetPixmap nat matrix
  | PixSave string
  | RootAfter callback
  | DocClose

definition out_file_of :: "string \<Rightarrow> string \<Rightarrow> string \<Rightarrow> nat \<Rightarrow> string" where
  "out_file_of out base_name ext i =
     (let file_ext = (if ext = ''jpeg'' then ''jpg'' else ''png'')
      in path_join out (base_name @ ''_page'' @ fmt04d i @ ''.'' @ file_ext))"

text \<open>
  The loop \<^verbatim>\<open>for i, page in enumerate(doc, start=1)\<close>: the steps taken, the disk, and the
  exception that ended the loop, if one did.
\<close>

fun page_loop ::
  "('p, 'x) engine \<Rightarrow> matrix \<Rightarrow> nat \<Rightarrow> string \<Rightarrow> string \<Rightarrow> string \<Rightarrow>
   (nat \<times> 'p) list \<Rightarrow> 'x disk \<Rightarrow> action list \<times> 'x disk \<times> exn option" where
  "page_loop E mat tot out base_name ext [] d = ([], d, None)"
| "page_loop E mat tot out base_name ext ((i, page) # rest) d =
     (case get_pixmap E page mat of
        Inl e \<Rightarrow> ([GetPixmap i mat], d, Some e)
      | Inr pix \<Rightarrow>
          (let out_file = out_file_of out base_name ext i
           in case pix_save E pix out_file of
                Some e \<Rightarrow> ([GetPixmap i mat, PixSave out_file], d, Some e)
              | None \<Rightarrow>
                  (case page_loop E mat tot out base_name ext rest (d(out_file \<mapsto> Image pix)) of
                     (steps, d', r) \<Rightarrow>
                       ([GetPixmap i mat, PixSave out_file,
                         RootAfter (UpdateProgress i tot out_file)] @ steps, d', r))))"

text \<open>
  The result of the worker: its steps, the disk it leaves, and the exception the
  \<^verbatim>\<open>except\<close> clause caught (bound to \<open>e\<close> inside the clause only). The worker reads
  the format and the DPI from the application when it runs; both reads succeed, the DPI
  being an integer. A save that raises leaves the disk as it was.
\<close>

record 'x worker =
  steps :: "action list"
  disk_after :: "'x disk"
  caught :: "exn option"

definition convert :: "('p, 'x) engine \<Rightarrow> app \<Rightarrow> string \<Rightarrow> string \<Rightarrow> 'x disk \<Rightarrow> 'x worker" where
  "convert E self pdf out d =
     (case fitz_open E pdf of
        Inl e \<Rightarrow>
          \<lparr>steps = [FitzOpen pdf, RootAfter ConversionError], disk_after = d, caught = Some e\<rparr>
      | Inr doc \<Rightarrow>
          (let tot = length doc;
               base_name = splitext_root (basename pdf);
               ext = lower (fmt self);
               zoom = of_int (dpi self) / 72;
               mat = (zoom, zoom);
               begin_steps =
                 [FitzOpen pdf, RootAfter (ConfigureProgress tot),
                  RootAfter (LogStarted tot (dpi self) (upper ext))]
           in case page_loop E mat tot out base_name ext (enumerate 1 doc) d of
                (loop_steps, d', None) \<Rightarrow>
                  \<lparr>steps = begin_steps @ loop_steps @
                             [DocClose, RootAfter (ConversionDone tot out)],
                   disk_after = d', caught = None\<rparr>
              | (loop_steps, d', Some e) \<Rightarrow>
                  \<lparr>steps = begin_steps @ loop_steps @ [RootAfter ConversionError],
                   disk_after = d', caught = Some e\<rparr>))"

text \<open>The callbacks among the steps, in the order they were scheduled.\<close>

fun scheduled :: "action list \<Rightarrow> callback list" where
  "scheduled [] = []"
| "scheduled (RootAfter cb # rest) = cb # scheduled rest"
| "scheduled (_ # rest) = scheduled rest"

text \<open>The files the steps saved, and the matrices they rendered with.\<close>

fun saved_files :: "action list \<Rightarrow> string list" where
  "saved_files [] = []"
| "saved_files (PixSave f # rest) = f # saved_files rest"
| "saved_files (_ # rest) = saved_files rest"

fun matrices :: "action list \<Rightarrow> matrix list" where
  "matrices [] = []"
| "matrices (GetPixmap i m # rest) = m # matrices rest"
| "matrices (_ # rest) = matrices rest"

subsection \<open>The callbacks on the main loop\<close>

definition update_progress :: "nat \<Rightarrow> nat \<Rightarrow> string \<Rightarrow> app \<Rightarrow> app" where
  "update_progress current tot filepath self =
     app_log (LogPage current tot (basename filepath))
       (self\<lparr>progress_value := current, label_status := Converting current tot\<rparr>)"

definition conversion_done :: "nat \<Rightarrow> string \<Rightarrow> app \<Rightarrow> app" where
  "conversion_done tot out self =
     (let s1 = app_log (LogDone tot out) (self\<lparr>label_status := Completed\<rparr>);
          s2 = s1\<lparr>is_running := False, btn_run_enabled := True\<rparr>
      in s2\<lparr>dialogs := dialogs s2 @ [InfoSaved tot]\<rparr>)"

definition conversion_error :: "exn \<Rightarrow> app \<Rightarrow> app" where
  "conversion_error err self =
     (let s1 = app_log (LogError err) (self\<lparr>label_status := ErrorStatus\<rparr>);
          s2 = s1\<lparr>is_running := False, btn_run_enabled := True\<rparr>
      in s2\<lparr>dialogs := dialogs s2 @ [ErrorText err]\<rparr>)"

text \<open>
  Python unbinds the target of \<^verbatim>\<open>except Exception as e\<close> when the clause ends. The
  name \<open>e\<close> of the worker's frame therefore holds the exception only while the worker
  is inside the clause, and nothing once it has left it.
\<close>

definition frame_e :: "'x worker \<Rightarrow> bool \<Rightarrow> exn option" where
  "frame_e w inside_except = (if inside_except then caught w else None)"

text \<open>
  Running one callback on the main loop, given what the name \<open>e\<close> holds at that moment.
  A callback that raises changes nothing: Tk reports the exception and goes on.
\<close>

definition run_callback :: "exn option \<Rightarrow> callback \<Rightarrow> app \<Rightarrow> exn + app" where
  "run_callback e cb self =
     (case cb of
        ConfigureProgress tot \<Rightarrow> Inr (self\<lparr>progress_maximum := tot, progress_value := 0\<rparr>)
      | LogStarted tot d ext \<Rightarrow> Inr (app_log (LogStart tot d ext) self)
      | UpdateProgress v tot f \<Rightarrow> Inr (update_progress v tot f self)
      | ConversionDone tot out \<Rightarrow> Inr (conversion_done tot out self)
      | ConversionError \<Rightarrow>
          (case e of
             None \<Rightarrow> Inl ''NameError''
           | Some err \<Rightarrow> Inr (conversion_error err self)))"

fun mainloop :: "exn option \<Rightarrow> callback list \<Rightarrow> app \<Rightarrow> app" where
  "mainloop e [] self = self"
| "mainloop e (cb # cbs) self =
     (case run_callback e cb self of
        Inl err \<Rightarrow> mainloop e cbs self
      | Inr self' \<Rightarrow> mainloop e cbs self')"

subsection \<open>The events an observer sees\<close>

text \<open>
  The event stream of a conversion, read off the callbacks: setting up the progress bar
  with the page count announces the start (the log line scheduled with it belongs to the
  same announcement), a progress update reports a page, with its index as the count of
  pages done so far, and the two final callbacks end the stream. The error callback
  reports a failure with a message when the name \<open>e\<close> still holds one.
\<close>

datatype event =
    Started nat
  | PageDone nat nat string
  | Finished nat string
  | Failed exn

fun event_of :: "exn option \<Rightarrow> callback \<Rightarrow> event list" where
  "event_of e (ConfigureProgress tot) = [Started tot]"
| "event_of e (LogStarted tot d ext) = []"
| "event_of e (UpdateProgress v tot f) = [PageDone v v f]"
| "event_of e (ConversionDone tot out) = [Finished tot out]"
| "event_of e ConversionError = (case e of None \<Rightarrow> [] | Some err \<Rightarrow> [Failed err])"

definition events :: "exn option \<Rightarrow> callback list \<Rightarrow> event list" where
  "events e cbs = concat (map (event_of e) cbs)"

text \<open>The two callbacks that end a conversion.\<close>

fun is_terminal :: "callback \<Rightarrow> bool" where
  "is_terminal (ConversionDone tot out) = True"
| "is_terminal ConversionError = True"
| "is_terminal _ = False"

text \<open>
  Whether page \<open>i\<close> fails: the exception of rendering it, or else of saving it to its
  file, or none.
\<close>

definition page_fails ::
  "('p, 'x) engine \<Rightarrow> matrix \<Rightarrow> string \<Rightarrow> 'p \<Rightarrow> exn option" where
  "page_fails E mat file page =
     (case get_pixmap E page mat of
        Inl e \<Rightarrow> Some e
      | Inr pix \<Rightarrow> pix_save E pix file)"

subsection \<open>A worked example\<close>

text \<open>
  A disk that holds the source \<^verbatim>\<open>/in/deck.pdf\<close> and no output directory yet, the
  application as the user has filled it in, and the same application while a conversion
  is running.
\<close>

definition deck_disk :: "nat disk" where
  "deck_disk = [''/in'' \<mapsto> Dir, ''/in/deck.pdf'' \<mapsto> Plain]"

definition deck_app :: app where
  "deck_app =
     \<lparr>pdf_path = ''/in/deck.pdf'', output_dir = ''/out/img'', dpi = 200, fmt = ''PNG'',
      is_running = False, btn_run_enabled = True, progress_maximum = 100,
      progress_value = 0, label_status = Waiting, text_log = [], dialogs = []\<rparr>"

definition running_app :: app where
  "running_app = deck_app\<lparr>is_running := True, btn_run_enabled := False\<rparr>"

text \<open>
  Three engines over pages and pixel buffers that are numbers. The first opens the deck
  as two pages and renders and saves both. The second fails to render the second page.
  The third cannot open the file.
\<close>

definition good_engine :: "(nat, nat) engine" where
  "good_engine =
     \<lparr>fitz_open = (\<lambda>p. if p = ''/in/deck.pdf'' then Inr [10, 20] else Inl ''no such file''),
      get_pixmap = (\<lambda>page m. Inr (page + 1)),
      pix_save = (\<lambda>pix f. None)\<rparr>"

definition bad_page_engine :: "(nat, nat) engine" where
  "bad_page_engine =
     \<lparr>fitz_open = (\<lambda>p. if p = ''/in/deck.pdf'' then Inr [10, 20] else Inl ''no such file''),
      get_pixmap = (\<lambda>page m. if page = 20 then Inl ''cannot render'' else Inr (page + 1)),
      pix_save = (\<lambda>pix f. None)\<rparr>"

definition corrupt_engine :: "(nat, nat) engine" where
  "corrupt_engine =
     \<lparr>fitz_open = (\<lambda>p. Inl ''cannot open broken document''),
      get_pixmap = (\<lambda>page m. Inr (page + 1)),
      pix_save = (\<lambda>pix f. None)\<rparr>"

text \<open>
  An engine that renders as the first one does at the scale 2 and fails at every other
  scale, and the application at 144 DPI, where the scale is 2.
\<close>

definition scale_2_engine :: "(nat, nat) engine" where
  "scale_2_engine =
     \<lparr>fitz_open = (\<lambda>p. if p = ''/in/deck.pdf'' then Inr [10, 20] else Inl ''no such file''),
      get_pixmap = (\<lambda>page m. if m = (2, 2) then Inr (page + 1) else Inl ''other scale''),
      pix_save = (\<lambda>pix f. None)\<rparr>"

definition app_144 :: app where
  "app_144 = deck_app\<lparr>dpi := 144\<rparr>"

text \<open>
  An operating system that refuses nothing, and the application with an output directory
  named below the source file.
\<close>

definition no_refusal :: refusal where
  "no_refusal a = None"

definition below_file_app :: app where
  "below_file_app = deck_app\<lparr>output_dir := ''/in/deck.pdf/img''\<rparr>"

section \<open>Starting a conversion\<close>

text \<open>Helper facts on \<^const>\<open>makedirs\<close> and on what the worker reads of the application.\<close>

lemma mkdir_all_creates:
  assumes "fst (mkdir_all refuses as d) = None"
  shows "snd (mkdir_all refuses as d) q = (if q \<in> set as then Some Dir else d q)"
  using assms
proof (induction as arbitrary: d)
  case Nil
  then show ?case by simp
next
  case (Cons a as)
  from Cons.prems have r: "refuses a = None"
    by (simp split: option.splits)
  show ?case
  proof (cases "d a")
    case None
    define D where "D = d(a \<mapsto> Dir)"
    from Cons.prems have "fst (mkdir_all refuses as D) = None"
      by (simp add: r None D_def)
    from Cons.IH [OF this] show ?thesis
      by (simp add: r None D_def [symmetric]) (simp add: D_def)
  next
    case (Some n)
    with Cons.prems r have n: "n = Dir"
      by (cases n) (simp_all split: if_splits)
    from Cons.prems have "fst (mkdir_all refuses as d) = None"
      by (simp add: r Some n)
    from Cons.IH [OF this] show ?thesis
      by (auto simp: r Some n)
  qed
qed

lemma makedirs_creates:
  assumes "fst (makedirs refuses p d) = None"
  shows "snd (makedirs refuses p d) q = (if q \<in> set (parents p @ [p]) then Some Dir else d q)"
  using mkdir_all_creates [of refuses "parents p @ [p]" d q] assms
  by (simp add: makedirs_def)

lemma convert_reads_fmt_dpi:
  assumes "fmt s' = fmt s" and "dpi s' = dpi s"
  shows "convert E s' p out dk = convert E s p out dk"
  unfolding convert_def assms by (rule refl)

lemma start_conversion_keeps_settings:
  "fmt (fst (snd (start_conversion refuses self d))) = fmt self \<and>
   dpi (fst (snd (start_conversion refuses self d))) = dpi self"
  by (simp add: start_conversion_def Let_def split: prod.split option.split)

text \<open>
  \<^bold>\<open>C10.\<close> If the running flag is set when \<^verbatim>\<open>_start_conversion\<close> is called and the
  source and output fields pass the two checks that come first, the call returns without
  raising, without a message box, without creating a directory and without starting a
  worker: the application and the disk are what they were.
\<close>

theorem start_while_running_is_noop:
  assumes "is_running self"
    and "strip (pdf_path self) \<noteq> []"
    and "isfile d (strip (pdf_path self))"
    and "strip (output_dir self) \<noteq> []"
  shows "start_conversion refuses self d = (Returned, self, d)"
  using assms by (simp add: start_conversion_def Let_def)

text \<open>
  C10 at the worked example: a conversion is running, the source exists, the output
  directory is named.
\<close>

theorem start_while_running_is_noop_witness:
  "is_running running_app \<and> strip (pdf_path running_app) \<noteq> [] \<and>
   isfile deck_disk (strip (pdf_path running_app)) \<and> strip (output_dir running_app) \<noteq> [] \<and>
   start_conversion no_refusal running_app deck_disk = (Returned, running_app, deck_disk)"
proof -
  have 1: "is_running running_app"
    by (simp add: running_app_def)
  have 2: "strip (pdf_path running_app) \<noteq> []"
    by code_simp
  have 3: "isfile deck_disk (strip (pdf_path running_app))"
    by code_simp
  have 4: "strip (output_dir running_app) \<noteq> []"
    by code_simp
  show ?thesis
    using 1 2 3 4 start_while_running_is_noop [OF 1 2 3 4] by simp
qed

text \<open>
  \<^bold>\<open>C3\<close> says that a start during a running conversion fails with an error of its own.
  The program has no such error. At the worked example the call returns normally and
  shows no message box.
\<close>

theorem start_while_running_no_error:
  "is_running running_app \<and>
   strip (pdf_path running_app) \<noteq> [] \<and>
   isfile deck_disk (strip (pdf_path running_app)) \<and>
   strip (output_dir running_app) \<noteq> [] \<and>
   fst (start_conversion no_refusal running_app deck_disk) = Returned \<and>
   dialogs (fst (snd (start_conversion no_refusal running_app deck_disk))) = dialogs running_app"
  by (simp add: start_conversion_def Let_def running_app_def deck_app_def deck_disk_def
      strip_def is_space_def isfile_def)

text \<open>
  \<^bold>\<open>C3, amended.\<close> A start during a running conversion returns at once, in the caller's
  thread: it never raises and never starts a second worker, it leaves the disk and the
  running flag as they are, it shows no message box when the two fields pass their checks,
  and the worker in flight would do exactly what it does without the call, since nothing
  that \<^const>\<open>convert\<close> reads of the application has changed.
\<close>

theorem start_while_running_returns:
  assumes "is_running self"
  shows "fst (start_conversion refuses self d) = Returned \<and>
         snd (snd (start_conversion refuses self d)) = d \<and>
         is_running (fst (snd (start_conversion refuses self d))) \<and>
         (strip (pdf_path self) \<noteq> [] \<and> isfile d (strip (pdf_path self)) \<and>
          strip (output_dir self) \<noteq> [] \<longrightarrow>
            dialogs (fst (snd (start_conversion refuses self d))) = dialogs self) \<and>
         convert E (fst (snd (start_conversion refuses self d))) p out dk = convert E self p out dk"
proof -
  have "convert E (fst (snd (start_conversion refuses self d))) p out dk = convert E self p out dk"
    using start_conversion_keeps_settings [of refuses self d]
    by (intro convert_reads_fmt_dpi) simp_all
  moreover have "fst (start_conversion refuses self d) = Returned"
    using assms by (simp add: start_conversion_def Let_def)
  moreover have "snd (snd (start_conversion refuses self d)) = d"
    using assms by (simp add: start_conversion_def Let_def)
  moreover have "is_running (fst (snd (start_conversion refuses self d)))"
    using assms by (simp add: start_conversion_def Let_def)
  moreover have "strip (pdf_path self) \<noteq> [] \<and> isfile d (strip (pdf_path self)) \<and>
          strip (output_dir self) \<noteq> [] \<longrightarrow>
            dialogs (fst (snd (start_conversion refuses self d))) = dialogs self"
    using assms by (simp add: start_conversion_def Let_def)
  ultimately show ?thesis by blast
qed

text \<open>C3, amended, at the worked example.\<close>

theorem start_while_running_returns_witness:
  "is_running running_app \<and>
   fst (start_conversion no_refusal running_app deck_disk) = Returned \<and>
   snd (snd (start_conversion no_refusal running_app deck_disk)) = deck_disk \<and>
   is_running (fst (snd (start_conversion no_refusal running_app deck_disk))) \<and>
   dialogs (fst (snd (start_conversion no_refusal running_app deck_disk))) = [] \<and>
   convert good_engine (fst (snd (start_conversion no_refusal running_app deck_disk)))
     ''/in/deck.pdf'' ''/out/img'' deck_disk =
   convert good_engine running_app ''/in/deck.pdf'' ''/out/img'' deck_disk"
proof -
  have r: "is_running running_app"
    by (simp add: running_app_def)
  have v: "strip (pdf_path running_app) \<noteq> [] \<and>
      isfile deck_disk (strip (pdf_path running_app)) \<and> strip (output_dir running_app) \<noteq> []"
    by code_simp
  have d: "dialogs running_app = []"
    by (simp add: running_app_def deck_app_def)
  from start_while_running_returns [OF r, of no_refusal deck_disk good_engine "''/in/deck.pdf''"
      "''/out/img''" deck_disk]
    r v d show ?thesis
    by simp
qed

text \<open>
  \<^bold>\<open>C6\<close> says that a valid source and a named but absent output directory always lead to
  the directory being created. Two inputs show otherwise. While a conversion is running
  nothing is created: the check of the running flag comes before \<^verbatim>\<open>os.makedirs\<close>. And
  with no conversion running, an output directory named below the source file is absent
  and cannot be created: \<^verbatim>\<open>os.makedirs\<close> raises, the exception leaves
  \<^verbatim>\<open>_start_conversion\<close>, and no conversion starts.
\<close>

theorem running_or_refused_start_creates_no_directory:
  "is_running running_app \<and>
   strip (pdf_path running_app) \<noteq> [] \<and>
   isfile deck_disk (strip (pdf_path running_app)) \<and>
   strip (output_dir running_app) = ''/out/img'' \<and>
   deck_disk ''/out/img'' = None \<and>
   fst (start_conversion no_refusal running_app deck_disk) = Returned \<and>
   \<not> isdir (snd (snd (start_conversion no_refusal running_app deck_disk))) ''/out/img'' \<and>
   \<not> is_running below_file_app \<and>
   strip (pdf_path below_file_app) \<noteq> [] \<and>
   isfile deck_disk (strip (pdf_path below_file_app)) \<and>
   strip (output_dir below_file_app) = ''/in/deck.pdf/img'' \<and>
   deck_disk ''/in/deck.pdf/img'' = None \<and>
   fst (start_conversion no_refusal below_file_app deck_disk) = Raised ''NotADirectoryError'' \<and>
   \<not> isdir (snd (snd (start_conversion no_refusal below_file_app deck_disk))) ''/in/deck.pdf/img'' \<and>
   \<not> is_running (fst (snd (start_conversion no_refusal below_file_app deck_disk)))"
  by code_simp

text \<open>
  \<^bold>\<open>C6, amended.\<close> An empty source field and a source that is not an existing file are
  rejected with the message that asks for a valid PDF; with a valid source, an empty
  output field is rejected with the message that asks for an output folder; the two
  messages differ. With a valid source and a named output directory that is absent, when
  no conversion is running and \<^verbatim>\<open>os.makedirs\<close> does not raise, the call creates the
  directory and every missing directory above it, changes nothing else on the disk, sets
  the running flag and starts the worker.
\<close>

theorem validation_then_makedirs:
  "(strip (pdf_path self) = [] \<longrightarrow>
      start_conversion refuses self d =
        (Returned, self\<lparr>dialogs := dialogs self @ [ErrorSelectPdf]\<rparr>, d)) \<and>
   (\<not> isfile d (strip (pdf_path self)) \<longrightarrow>
      start_conversion refuses self d =
        (Returned, self\<lparr>dialogs := dialogs self @ [ErrorSelectPdf]\<rparr>, d)) \<and>
   (strip (pdf_path self) \<noteq> [] \<and> isfile d (strip (pdf_path self)) \<and>
    strip (output_dir self) = [] \<longrightarrow>
      start_conversion refuses self d =
        (Returned, self\<lparr>dialogs := dialogs self @ [ErrorSpecifyOutput]\<rparr>, d)) \<and>
   ErrorSelectPdf \<noteq> ErrorSpecifyOutput \<and>
   (strip (pdf_path self) \<noteq> [] \<and> isfile d (strip (pdf_path self)) \<and>
    strip (output_dir self) \<noteq> [] \<and> d (strip (output_dir self)) = None \<and>
    \<not> is_running self \<and> fst (makedirs refuses (strip (output_dir self)) d) = None \<longrightarrow>
      fst (start_conversion refuses self d) =
        Spawned (strip (pdf_path self)) (strip (output_dir self)) \<and>
      fst (snd (start_conversion refuses self d)) =
        self\<lparr>is_running := True, btn_run_enabled := False\<rparr> \<and>
      isdir (snd (snd (start_conversion refuses self d))) (strip (output_dir self)) \<and>
      list_all (isdir (snd (snd (start_conversion refuses self d))))
        (parents (strip (output_dir self))) \<and>
      (\<forall>q. q \<notin> set (parents (strip (output_dir self)) @ [strip (output_dir self)]) \<longrightarrow>
         snd (snd (start_conversion refuses self d)) q = d q))"
proof -
  let ?pdf = "strip (pdf_path self)" and ?out = "strip (output_dir self)"
  have a: "?pdf = [] \<longrightarrow> start_conversion refuses self d =
        (Returned, self\<lparr>dialogs := dialogs self @ [ErrorSelectPdf]\<rparr>, d)"
    by (simp add: start_conversion_def Let_def)
  have b: "\<not> isfile d ?pdf \<longrightarrow> start_conversion refuses self d =
        (Returned, self\<lparr>dialogs := dialogs self @ [ErrorSelectPdf]\<rparr>, d)"
    by (simp add: start_conversion_def Let_def)
  have c: "?pdf \<noteq> [] \<and> isfile d ?pdf \<and> ?out = [] \<longrightarrow> start_conversion refuses self d =
        (Returned, self\<lparr>dialogs := dialogs self @ [ErrorSpecifyOutput]\<rparr>, d)"
    by (simp add: start_conversion_def Let_def)
  have e: "fst (start_conversion refuses self d) = Spawned ?pdf ?out \<and>
      fst (snd (start_conversion refuses self d)) =
        self\<lparr>is_running := True, btn_run_enabled := False\<rparr> \<and>
      isdir (snd (snd (start_conversion refuses self d))) ?out \<and>
      list_all (isdir (snd (snd (start_conversion refuses self d)))) (parents ?out) \<and>
      (\<forall>q. q \<notin> set (parents ?out @ [?out]) \<longrightarrow>
         snd (snd (start_conversion refuses self d)) q = d q)"
    if valid: "?pdf \<noteq> []" "isfile d ?pdf" "?out \<noteq> []" and idle: "\<not> is_running self"
      and made: "fst (makedirs refuses ?out d) = None"
  proof -
    obtain d' where m: "makedirs refuses ?out d = (None, d')"
      using made by (cases "makedirs refuses ?out d") simp
    have d': "d' q = (if q \<in> set (parents ?out @ [?out]) then Some Dir else d q)" for q
      using makedirs_creates [OF made, of q] by (simp add: m)
    have s: "start_conversion refuses self d =
        (Spawned ?pdf ?out, self\<lparr>is_running := True, btn_run_enabled := False\<rparr>, d')"
      using valid idle by (simp add: start_conversion_def Let_def m)
    show ?thesis
      unfolding s by (simp add: isdir_def list_all_iff d')
  qed
  from a b c e show ?thesis
    by blast
qed

text \<open>
  C6, amended, at the worked example: a blank source, a source that does not exist, a
  blank output field, and the filled-in form on a disk without \<^verbatim>\<open>/out\<close>.
\<close>

theorem validation_then_makedirs_witness:
  "strip (pdf_path (deck_app\<lparr>pdf_path := ''  ''\<rparr>)) = [] \<and>
   start_conversion no_refusal (deck_app\<lparr>pdf_path := ''  ''\<rparr>) deck_disk =
     (Returned, deck_app\<lparr>pdf_path := ''  '', dialogs := [ErrorSelectPdf]\<rparr>, deck_disk) \<and>
   \<not> isfile deck_disk (strip (pdf_path (deck_app\<lparr>pdf_path := ''/in/other.pdf''\<rparr>))) \<and>
   start_conversion no_refusal (deck_app\<lparr>pdf_path := ''/in/other.pdf''\<rparr>) deck_disk =
     (Returned, deck_app\<lparr>pdf_path := ''/in/other.pdf'', dialogs := [ErrorSelectPdf]\<rparr>, deck_disk) \<and>
   isfile deck_disk (strip (pdf_path (deck_app\<lparr>output_dir := '' ''\<rparr>))) \<and>
   strip (output_dir (deck_app\<lparr>output_dir := '' ''\<rparr>)) = [] \<and>
   start_conversion no_refusal (deck_app\<lparr>output_dir := '' ''\<rparr>) deck_disk =
     (Returned, deck_app\<lparr>output_dir := '' '', dialogs := [ErrorSpecifyOutput]\<rparr>, deck_disk) \<and>
   \<not> is_running deck_app \<and> deck_disk ''/out/img'' = None \<and> deck_disk ''/out'' = None \<and>
   fst (makedirs no_refusal ''/out/img'' deck_disk) = None \<and>
   fst (start_conversion no_refusal deck_app deck_disk) = Spawned ''/in/deck.pdf'' ''/out/img'' \<and>
   is_running (fst (snd (start_conversion no_refusal deck_app deck_disk))) \<and>
   isdir (snd (snd (start_conversion no_refusal deck_app deck_disk))) ''/out/img'' \<and>
   isdir (snd (snd (start_conversion no_refusal deck_app deck_disk))) ''/out''"
proof -
  let ?s1 = "deck_app\<lparr>pdf_path := ''  ''\<rparr>"
  let ?s2 = "deck_app\<lparr>pdf_path := ''/in/other.pdf''\<rparr>"
  let ?s3 = "deck_app\<lparr>output_dir := '' ''\<rparr>"
  have h1: "strip (pdf_path ?s1) = []"
    by code_simp
  have h2: "\<not> isfile deck_disk (strip (pdf_path ?s2))"
    by code_simp
  have h3: "strip (pdf_path ?s3) \<noteq> [] \<and> isfile deck_disk (strip (pdf_path ?s3)) \<and>
      strip (output_dir ?s3) = []"
    by code_simp
  have pdf: "strip (pdf_path deck_app) = ''/in/deck.pdf''"
    by code_simp
  have out: "strip (output_dir deck_app) = ''/out/img''"
    by code_simp
  have par: "parents ''/out/img'' = [''/out'']"
    by code_simp
  have mk: "fst (makedirs no_refusal ''/out/img'' deck_disk) = None"
    by code_simp
  have h4: "strip (pdf_path deck_app) \<noteq> [] \<and> isfile deck_disk (strip (pdf_path deck_app)) \<and>
      strip (output_dir deck_app) \<noteq> [] \<and> deck_disk (strip (output_dir deck_app)) = None \<and>
      \<not> is_running deck_app \<and>
      fst (makedirs no_refusal (strip (output_dir deck_app)) deck_disk) = None"
    unfolding pdf out using mk by (simp add: deck_disk_def deck_app_def isfile_def)
  have d1: "dialogs ?s1 = []" and d2: "dialogs ?s2 = []" and d3: "dialogs ?s3 = []"
    by (simp_all add: deck_app_def)
  have c1: "start_conversion no_refusal ?s1 deck_disk =
      (Returned, deck_app\<lparr>pdf_path := ''  '', dialogs := [ErrorSelectPdf]\<rparr>, deck_disk)"
    using validation_then_makedirs [where self = ?s1 and refuses = no_refusal and d = deck_disk] h1 d1 by simp
  have c2: "start_conversion no_refusal ?s2 deck_disk =
      (Returned, deck_app\<lparr>pdf_path := ''/in/other.pdf'', dialogs := [ErrorSelectPdf]\<rparr>, deck_disk)"
    using validation_then_makedirs [where self = ?s2 and refuses = no_refusal and d = deck_disk] h2 d2 by simp
  have c3: "start_conversion no_refusal ?s3 deck_disk =
      (Returned, deck_app\<lparr>output_dir := '' '', dialogs := [ErrorSpecifyOutput]\<rparr>, deck_disk)"
    using validation_then_makedirs [where self = ?s3 and refuses = no_refusal and d = deck_disk] h3 d3 by simp
  have c4: "fst (start_conversion no_refusal deck_app deck_disk) = Spawned ''/in/deck.pdf'' ''/out/img'' \<and>
      is_running (fst (snd (start_conversion no_refusal deck_app deck_disk))) \<and>
      isdir (snd (snd (start_conversion no_refusal deck_app deck_disk))) ''/out/img'' \<and>
      isdir (snd (snd (start_conversion no_refusal deck_app deck_disk))) ''/out''"
    using validation_then_makedirs [where self = deck_app and refuses = no_refusal and d = deck_disk] h4 unfolding pdf out par by simp
  have e: "\<not> is_running deck_app \<and> deck_disk ''/out/img'' = None \<and> deck_disk ''/out'' = None"
    by (simp add: deck_app_def deck_disk_def)
  from h1 h2 h3 c1 c2 c3 c4 e mk show ?thesis
    by simp
qed

section \<open>The page loop\<close>

text \<open>
  The three readings of a list of steps distribute over concatenation, and the loop is
  described page by page: when every page renders and saves, when one page fails, and
  whatever the engine does.
\<close>

lemma scheduled_append: "scheduled (xs @ ys) = scheduled xs @ scheduled ys"
  by (induction xs rule: scheduled.induct) simp_all

lemma saved_files_append: "saved_files (xs @ ys) = saved_files xs @ saved_files ys"
  by (induction xs rule: saved_files.induct) simp_all

lemma matrices_append: "matrices (xs @ ys) = matrices xs @ matrices ys"
  by (induction xs rule: matrices.induct) simp_all

lemma page_loop_all_pages:
  assumes "\<forall>(i, page) \<in> set ps. page_fails E mat (out_file_of out b x i) page = None"
  shows "scheduled (fst (page_loop E mat tot out b x ps d)) =
           map (\<lambda>(i, page). UpdateProgress i tot (out_file_of out b x i)) ps \<and>
         snd (snd (page_loop E mat tot out b x ps d)) = None \<and>
         DocClose \<notin> set (fst (page_loop E mat tot out b x ps d))"
  using assms
proof (induction ps arbitrary: d)
  case Nil
  then show ?case by simp
next
  case (Cons a ps)
  obtain i page where a: "a = (i, page)"
    by (cases a)
  from Cons.prems a obtain pix where
    r: "get_pixmap E page mat = Inr pix" and s: "pix_save E pix (out_file_of out b x i) = None"
    by (auto simp: page_fails_def split: sum.splits)
  from Cons.prems have rest: "\<forall>(i, page) \<in> set ps. page_fails E mat (out_file_of out b x i) page = None"
    by simp
  define D where "D = d(out_file_of out b x i \<mapsto> Image pix)"
  from Cons.IH [OF rest, of D]
  obtain st d' where
    pl: "page_loop E mat tot out b x ps D = (st, d', None)"
    and st: "scheduled st = map (\<lambda>(i, page). UpdateProgress i tot (out_file_of out b x i)) ps"
      "DocClose \<notin> set st"
    by (cases "page_loop E mat tot out b x ps D") auto
  show ?case
    by (simp add: a r s pl [unfolded D_def] st Let_def)
qed

lemma page_loop_failing_page:
  assumes "\<forall>(i, page) \<in> set ps. page_fails E mat (out_file_of out b x i) page = None"
    and "page_fails E mat (out_file_of out b x k) bad = Some e"
  shows "scheduled (fst (page_loop E mat tot out b x (ps @ (k, bad) # qs) d)) =
           map (\<lambda>(i, page). UpdateProgress i tot (out_file_of out b x i)) ps \<and>
         snd (snd (page_loop E mat tot out b x (ps @ (k, bad) # qs) d)) = Some e \<and>
         DocClose \<notin> set (fst (page_loop E mat tot out b x (ps @ (k, bad) # qs) d))"
  using assms(1)
proof (induction ps arbitrary: d)
  case Nil
  from assms(2) show ?case
    by (auto simp: page_fails_def Let_def split: sum.splits option.splits)
next
  case (Cons a ps)
  obtain i page where a: "a = (i, page)"
    by (cases a)
  from Cons.prems a obtain pix where
    r: "get_pixmap E page mat = Inr pix" and s: "pix_save E pix (out_file_of out b x i) = None"
    by (auto simp: page_fails_def split: sum.splits)
  from Cons.prems have rest: "\<forall>(i, page) \<in> set ps. page_fails E mat (out_file_of out b x i) page = None"
    by simp
  define D where "D = d(out_file_of out b x i \<mapsto> Image pix)"
  from Cons.IH [OF rest, of D]
  obtain st d' where
    pl: "page_loop E mat tot out b x (ps @ (k, bad) # qs) D = (st, d', Some e)"
    and st: "scheduled st = map (\<lambda>(i, page). UpdateProgress i tot (out_file_of out b x i)) ps"
      "DocClose \<notin> set st"
    by (cases "page_loop E mat tot out b x (ps @ (k, bad) # qs) D") auto
  show ?case
    by (simp add: a r s pl [unfolded D_def] st Let_def)
qed

lemma page_loop_matrices:
  "matrices (fst (page_loop E mat tot out b x ps d)) =
     replicate (length (matrices (fst (page_loop E mat tot out b x ps d)))) mat"
proof (induction ps arbitrary: d)
  case Nil
  then show ?case by simp
next
  case (Cons a ps)
  obtain i page where a: "a = (i, page)"
    by (cases a)
  show ?case
  proof (cases "get_pixmap E page mat")
    case (Inl e)
    then show ?thesis by (simp add: a)
  next
    case (Inr pix)
    show ?thesis
    proof (cases "pix_save E pix (out_file_of out b x i)")
      case (Some e)
      then show ?thesis by (simp add: a Inr Let_def)
    next
      case None
      define D where "D = d(out_file_of out b x i \<mapsto> Image pix)"
      obtain st d' r where pl: "page_loop E mat tot out b x ps D = (st, d', r)"
        by (cases "page_loop E mat tot out b x ps D")
      from Cons.IH [of D] show ?thesis
        unfolding pl by (simp add: a Inr None pl [unfolded D_def] Let_def)
    qed
  qed
qed

lemma page_loop_saved_files:
  "saved_files (fst (page_loop E mat tot out b x ps d)) =
     map (\<lambda>(i, page). out_file_of out b x i)
       (take (length (saved_files (fst (page_loop E mat tot out b x ps d)))) ps)"
proof (induction ps arbitrary: d)
  case Nil
  then show ?case by simp
next
  case (Cons a ps)
  obtain i page where a: "a = (i, page)"
    by (cases a)
  show ?case
  proof (cases "get_pixmap E page mat")
    case (Inl e)
    then show ?thesis by (simp add: a)
  next
    case (Inr pix)
    show ?thesis
    proof (cases "pix_save E pix (out_file_of out b x i)")
      case (Some e)
      then show ?thesis by (simp add: a Inr Let_def)
    next
      case None
      define D where "D = d(out_file_of out b x i \<mapsto> Image pix)"
      obtain st d' r where pl: "page_loop E mat tot out b x ps D = (st, d', r)"
        by (cases "page_loop E mat tot out b x ps D")
      from Cons.IH [of D] show ?thesis
        unfolding pl by (simp add: a Inr None pl [unfolded D_def] Let_def)
    qed
  qed
qed

lemma map_enumerate_fst:
  "map (\<lambda>(i, page). f i) (enumerate n xs) = map f [n..<n + length xs]"
proof -
  have "map (\<lambda>(i, page). f i) ps = map f (map fst ps)" for ps :: "(nat \<times> 'b) list"
    by (induction ps) auto
  from this [of "enumerate n xs"] show ?thesis
    by simp
qed

lemma events_Cons: "events e (cb # cbs) = event_of e cb @ events e cbs"
  by (simp add: events_def)

lemma events_Nil: "events e [] = []"
  by (simp add: events_def)

lemma events_append: "events e (xs @ ys) = events e xs @ events e ys"
  by (simp add: events_def)

lemma events_pages:
  "events e (map (\<lambda>i. UpdateProgress i tot (f i)) is) = map (\<lambda>i. PageDone i i (f i)) is"
  by (induction "is") (simp_all add: events_def)

section \<open>A conversion that succeeds\<close>

text \<open>
  \<^bold>\<open>C1.\<close> When the source opens with \<open>N\<close> pages and every page renders and saves, the
  worker schedules, in this order and nothing else: the set-up of the progress bar with
  \<open>N\<close> (with the log line that belongs to it), one progress update for each page
  \<open>1, \<dots>, N\<close> carrying the page index, \<open>N\<close> and the file written for that page, and
  last the completion callback with \<open>N\<close> and the output directory. Read as events, that is
  one \<open>Started N\<close>, then \<open>PageDone i i file\<close> for \<open>i = 1, \<dots>, N\<close> in increasing order,
  then one \<open>Finished N out\<close>, and nothing after it.
\<close>

theorem successful_conversion_events:
  assumes opens: "fitz_open E pdf = Inr doc"
    and pages: "\<forall>(i, page) \<in> set (enumerate 1 doc).
        page_fails E (of_int (dpi self) / 72, of_int (dpi self) / 72)
          (out_file_of out (splitext_root (basename pdf)) (lower (fmt self)) i) page = None"
  shows "scheduled (steps (convert E self pdf out d)) =
           ConfigureProgress (length doc) #
           LogStarted (length doc) (dpi self) (upper (lower (fmt self))) #
           map (\<lambda>i. UpdateProgress i (length doc)
                  (out_file_of out (splitext_root (basename pdf)) (lower (fmt self)) i))
             [1..<Suc (length doc)] @
           [ConversionDone (length doc) out] \<and>
         events (frame_e (convert E self pdf out d) inside)
             (scheduled (steps (convert E self pdf out d))) =
           Started (length doc) #
           map (\<lambda>i. PageDone i i
                  (out_file_of out (splitext_root (basename pdf)) (lower (fmt self)) i))
             [1..<Suc (length doc)] @
           [Finished (length doc) out]"
proof -
  let ?mat = "(of_int (dpi self) / 72 :: rat, of_int (dpi self) / 72 :: rat)"
  let ?b = "splitext_root (basename pdf)" and ?x = "lower (fmt self)"
  let ?loop = "page_loop E ?mat (length doc) out ?b ?x (enumerate 1 doc) d"
  obtain st d' where pl: "?loop = (st, d', None)"
    and st: "scheduled st =
      map (\<lambda>(i, page). UpdateProgress i (length doc) (out_file_of out ?b ?x i)) (enumerate 1 doc)"
    using page_loop_all_pages [OF pages, of "length doc" d] by (cases ?loop) auto
  have st': "scheduled st =
      map (\<lambda>i. UpdateProgress i (length doc) (out_file_of out ?b ?x i)) [1..<Suc (length doc)]"
    unfolding st map_enumerate_fst by simp
  have c: "steps (convert E self pdf out d) =
      [FitzOpen pdf, RootAfter (ConfigureProgress (length doc)),
       RootAfter (LogStarted (length doc) (dpi self) (upper ?x))] @ st @
      [DocClose, RootAfter (ConversionDone (length doc) out)]"
    by (simp add: convert_def opens Let_def pl del: One_nat_def)
  have s: "scheduled (steps (convert E self pdf out d)) =
           ConfigureProgress (length doc) # LogStarted (length doc) (dpi self) (upper ?x) #
           map (\<lambda>i. UpdateProgress i (length doc) (out_file_of out ?b ?x i)) [1..<Suc (length doc)] @
           [ConversionDone (length doc) out]"
    unfolding c by (simp add: scheduled_append st')
  have "events (frame_e (convert E self pdf out d) inside)
             (scheduled (steps (convert E self pdf out d))) =
           Started (length doc) #
           map (\<lambda>i. PageDone i i (out_file_of out ?b ?x i)) [1..<Suc (length doc)] @
           [Finished (length doc) out]"
    unfolding s
    by (simp add: events_Cons events_Nil events_append events_pages del: upt_Suc)
  with s show ?thesis
    by blast
qed

text \<open>C1 at the worked example: the deck of two pages, at 200 DPI, as PNG.\<close>

theorem successful_conversion_events_witness:
  "fitz_open good_engine ''/in/deck.pdf'' = Inr [10, 20] \<and>
   page_fails good_engine (25 / 9, 25 / 9) ''/out/img/deck_page0001.png'' 10 = None \<and>
   page_fails good_engine (25 / 9, 25 / 9) ''/out/img/deck_page0002.png'' 20 = None \<and>
   scheduled (steps (convert good_engine deck_app ''/in/deck.pdf'' ''/out/img'' deck_disk)) =
     [ConfigureProgress 2, LogStarted 2 200 ''PNG'',
      UpdateProgress 1 2 ''/out/img/deck_page0001.png'',
      UpdateProgress 2 2 ''/out/img/deck_page0002.png'',
      ConversionDone 2 ''/out/img''] \<and>
   events (frame_e (convert good_engine deck_app ''/in/deck.pdf'' ''/out/img'' deck_disk) False)
       (scheduled (steps (convert good_engine deck_app ''/in/deck.pdf'' ''/out/img'' deck_disk))) =
     [Started 2, PageDone 1 1 ''/out/img/deck_page0001.png'',
      PageDone 2 2 ''/out/img/deck_page0002.png'', Finished 2 ''/out/img'']"
proof -
  have o: "fitz_open good_engine ''/in/deck.pdf'' = Inr [10, 20]"
    by (simp add: good_engine_def)
  have z: "(of_int (dpi deck_app) / 72 :: rat) = 25 / 9"
    by (simp add: deck_app_def)
  have f1: "out_file_of ''/out/img'' (splitext_root (basename ''/in/deck.pdf'')) (lower (fmt deck_app)) 1 =
      ''/out/img/deck_page0001.png''"
    by code_simp
  have f2: "out_file_of ''/out/img'' (splitext_root (basename ''/in/deck.pdf'')) (lower (fmt deck_app)) 2 =
      ''/out/img/deck_page0002.png''"
    by code_simp
  have p1: "page_fails good_engine (25 / 9, 25 / 9) ''/out/img/deck_page0001.png'' 10 = None"
    and p2: "page_fails good_engine (25 / 9, 25 / 9) ''/out/img/deck_page0002.png'' 20 = None"
    by (simp_all add: page_fails_def good_engine_def)
  have pages: "\<forall>(i, page) \<in> set (enumerate 1 [10, 20 :: nat]).
      page_fails good_engine (of_int (dpi deck_app) / 72, of_int (dpi deck_app) / 72)
        (out_file_of ''/out/img'' (splitext_root (basename ''/in/deck.pdf'')) (lower (fmt deck_app)) i)
        page = None"
    unfolding z using f1 f2 p1 p2 by (simp add: numeral_2_eq_2)
  have len: "length [10, 20 :: nat] = 2"
    by simp
  have u: "[1..<Suc 2] = [1, 2]"
    by code_simp
  have x: "upper (lower (fmt deck_app)) = ''PNG''"
    by code_simp
  have dp: "dpi deck_app = 200"
    by (simp add: deck_app_def)
  note successful_conversion_events [OF o pages, where d = deck_disk and inside = False,
      unfolded len u list.map f1 f2 x dp append.simps]
  with o p1 p2 show ?thesis
    by blast
qed

section \<open>Output file names\<close>

text \<open>
  Decimal digits and their value, the four-character page number, and the base name, which
  holds no slash, so that \<^const>\<open>path_join\<close> always appends the file name to the output
  directory.
\<close>

lemma digit_char_code: "k < 10 \<Longrightarrow> (of_char (digit_char k) :: nat) = 48 + k"
  by (simp add: digit_char_def)

lemma digit_val_digit_char: "k < 10 \<Longrightarrow> digit_val (digit_char k) = k"
  by (simp add: digit_val_def digit_char_code)

lemma undec_snoc: "undec (s @ [c]) = 10 * undec s + digit_val c"
  by (simp add: undec_def)

lemma undec_dec: "undec (dec n) = n"
proof (induction n rule: dec.induct)
  case (1 n)
  show ?case
  proof (cases "n < 10")
    case True
    then show ?thesis
      by (simp add: dec.simps [of n] undec_def digit_val_digit_char)
  next
    case False
    with 1 have "undec (dec (n div 10)) = n div 10"
      by simp
    with False show ?thesis
      by (simp add: dec.simps [of n] undec_snoc digit_val_digit_char)
  qed
qed

lemma dec_chars: "c \<in> set (dec n) \<Longrightarrow> 48 \<le> (of_char c :: nat) \<and> (of_char c :: nat) \<le> 57"
proof (induction n rule: dec.induct)
  case (1 n)
  show ?case
  proof (cases "n < 10")
    case True
    with 1(2) show ?thesis
      by (simp add: dec.simps [of n] digit_char_code)
  next
    case False
    with 1 show ?thesis
      by (auto simp: dec.simps [of n] digit_char_code)
  qed
qed

lemma dec_no_slash: "CHR ''/'' \<notin> set (dec n)"
  using dec_chars [of "CHR ''/''" n] by auto

lemma length_dec: "0 < k \<Longrightarrow> n < 10 ^ k \<Longrightarrow> length (dec n) \<le> k"
proof (induction k arbitrary: n)
  case 0
  then show ?case by simp
next
  case (Suc k)
  show ?case
  proof (cases "n < 10")
    case True
    then show ?thesis
      by (simp add: dec.simps [of n])
  next
    case False
    with Suc.prems have k: "0 < k"
      by (cases k) auto
    from Suc.prems have "n div 10 < 10 ^ k"
      by (simp add: less_mult_imp_div_less)
    from Suc.IH [OF k this] False show ?thesis
      by (simp add: dec.simps [of n])
  qed
qed

lemma length_dec_pos: "0 < length (dec n)"
  by (subst dec.simps) simp

lemma length_fmt04d: "i < 10000 \<Longrightarrow> length (fmt04d i) = 4"
  using length_dec [of 4 i] by (simp add: fmt04d_def)

lemma fmt04d_no_slash: "CHR ''/'' \<notin> set (fmt04d i)"
  by (auto simp: fmt04d_def dec_no_slash)

lemma basename_no_slash: "CHR ''/'' \<notin> set (basename p)"
  by (auto simp: basename_def dest: set_takeWhileD)

lemma set_splitext_root: "set (splitext_root p) \<subseteq> set p"
proof -
  have "set (basename p) \<subseteq> set p"
    by (auto simp: basename_def dest: set_takeWhileD)
  moreover have "set (drop 1 (dropWhile (\<lambda>c. c \<noteq> CHR ''.'') (rev (basename p)))) \<subseteq> set (basename p)"
    by (auto dest!: in_set_dropD set_dropWhileD)
  moreover have "set (take (length p - length (basename p)) p) \<subseteq> set p"
    by (rule set_take_subset)
  ultimately show ?thesis
    by (auto simp: splitext_root_def Let_def)
qed

lemma base_name_no_slash: "CHR ''/'' \<notin> set (splitext_root (basename p))"
  using set_splitext_root [of "basename p"] basename_no_slash [of p] by auto

lemma path_join_relative:
  assumes "b \<noteq> []" and "hd b \<noteq> CHR ''/''"
  shows "path_join a b = a @ (if a = [] \<or> last a = CHR ''/'' then [] else ''/'') @ b"
  using assms by (simp add: path_join_def)

lemma out_file_of_shape:
  assumes "CHR ''/'' \<notin> set b"
  shows "out_file_of out b x i =
           out @ (if out = [] \<or> last out = CHR ''/'' then [] else ''/'') @
           b @ ''_page'' @ fmt04d i @ (if x = ''jpeg'' then ''.jpg'' else ''.png'')"
proof -
  let ?name = "b @ ''_page'' @ fmt04d i @ ''.'' @ (if x = ''jpeg'' then ''jpg'' else ''png'')"
  have "?name \<noteq> []"
    by simp
  moreover have "hd ?name \<noteq> CHR ''/''"
    using assms by (cases b) auto
  ultimately have "path_join out ?name =
      out @ (if out = [] \<or> last out = CHR ''/'' then [] else ''/'') @ ?name"
    by (rule path_join_relative)
  then show ?thesis
    by (simp add: out_file_of_def Let_def)
qed

lemma convert_saved_files:
  "saved_files (steps (convert E self pdf out d)) =
     map (out_file_of out (splitext_root (basename pdf)) (lower (fmt self)))
       [1..<Suc (length (saved_files (steps (convert E self pdf out d))))]"
proof (cases "fitz_open E pdf")
  case (Inl e)
  then show ?thesis by (simp add: convert_def)
next
  case (Inr doc)
  let ?mat = "(of_int (dpi self) / 72 :: rat, of_int (dpi self) / 72 :: rat)"
  let ?b = "splitext_root (basename pdf)" and ?x = "lower (fmt self)"
  let ?loop = "page_loop E ?mat (length doc) out ?b ?x (enumerate 1 doc) d"
  obtain st d' r where pl: "?loop = (st, d', r)"
    by (cases ?loop)
  define k where "k = length (saved_files st)"
  have sv: "saved_files st = map (\<lambda>(i, page). out_file_of out ?b ?x i) (take k (enumerate 1 doc))"
    using page_loop_saved_files [of E ?mat "length doc" out ?b ?x "enumerate 1 doc" d]
    unfolding pl k_def by simp
  from arg_cong [OF sv, of length] have k: "k \<le> length doc"
    by (simp add: k_def [symmetric])
  have "map (\<lambda>(i, page). out_file_of out ?b ?x i) (take k (enumerate 1 doc)) =
        take k (map (\<lambda>(i, page). out_file_of out ?b ?x i) (enumerate 1 doc))"
    by (simp add: take_map)
  also have "\<dots> = take k (map (out_file_of out ?b ?x) [1..<1 + length doc])"
    by (simp only: map_enumerate_fst)
  also have "\<dots> = map (out_file_of out ?b ?x) (take k [1..<1 + length doc])"
    by (simp add: take_map)
  also have "take k [1..<1 + length doc] = [1..<1 + k]"
    using k by (intro take_upt) simp
  finally have sv': "saved_files st = map (out_file_of out ?b ?x) [1..<Suc k]"
    using sv by (simp del: upt_Suc)
  have "saved_files (steps (convert E self pdf out d)) = saved_files st"
    by (cases r) (simp_all add: convert_def Inr Let_def pl saved_files_append del: One_nat_def)
  with sv' show ?thesis
    by (simp add: k_def)
qed

lemma lower_PNG: "lower ''PNG'' = ''png''"
  by code_simp

lemma lower_JPEG: "lower ''JPEG'' = ''jpeg''"
  by code_simp

text \<open>
  \<^bold>\<open>C5.\<close> For the formats PNG and JPEG, the files the worker saves are, for the page
  indices \<open>1, 2, \<dots>\<close> in order, the output directory (followed by a slash unless it ends in
  one), the base name of the source, \<^verbatim>\<open>_page\<close>, the index in decimal filled with zeros on
  the left to four characters, and \<^verbatim>\<open>.png\<close> for PNG or \<^verbatim>\<open>.jpg\<close> for JPEG. The digits
  denote the index, an index below 10000 takes exactly four characters, and the file name
  holds no slash, so the file lies in the output directory itself. The name is a function
  of the base name, the index and the format.
\<close>

theorem output_file_names:
  assumes "fmt self = ''PNG'' \<or> fmt self = ''JPEG''"
  shows "saved_files (steps (convert E self pdf out d)) =
           map (\<lambda>i. out @ (if out = [] \<or> last out = CHR ''/'' then [] else ''/'') @
                  splitext_root (basename pdf) @ ''_page'' @
                  replicate (4 - length (dec i)) (CHR ''0'') @ dec i @
                  (if fmt self = ''JPEG'' then ''.jpg'' else ''.png''))
             [1..<Suc (length (saved_files (steps (convert E self pdf out d))))] \<and>
         undec (dec i) = i \<and>
         (i < 10000 \<longrightarrow> length (replicate (4 - length (dec i)) (CHR ''0'') @ dec i) = 4) \<and>
         CHR ''/'' \<notin> set (splitext_root (basename pdf) @ ''_page'' @
                  replicate (4 - length (dec i)) (CHR ''0'') @ dec i @
                  (if fmt self = ''JPEG'' then ''.jpg'' else ''.png''))"
proof -
  let ?b = "splitext_root (basename pdf)"
  have x: "(if lower (fmt self) = ''jpeg'' then ''.jpg'' else ''.png'') =
      (if fmt self = ''JPEG'' then ''.jpg'' else ''.png'')"
    using assms by (auto simp: lower_PNG lower_JPEG)
  have "out_file_of out ?b (lower (fmt self)) j =
      out @ (if out = [] \<or> last out = CHR ''/'' then [] else ''/'') @ ?b @ ''_page'' @
      replicate (4 - length (dec j)) (CHR ''0'') @ dec j @
      (if fmt self = ''JPEG'' then ''.jpg'' else ''.png'')" for j
    unfolding out_file_of_shape [OF base_name_no_slash] x fmt04d_def by simp
  then have shape: "out_file_of out ?b (lower (fmt self)) =
      (\<lambda>j. out @ (if out = [] \<or> last out = CHR ''/'' then [] else ''/'') @ ?b @ ''_page'' @
      replicate (4 - length (dec j)) (CHR ''0'') @ dec j @
      (if fmt self = ''JPEG'' then ''.jpg'' else ''.png''))"
    by (rule ext)
  have names: "saved_files (steps (convert E self pdf out d)) =
           map (\<lambda>i. out @ (if out = [] \<or> last out = CHR ''/'' then [] else ''/'') @
                  ?b @ ''_page'' @ replicate (4 - length (dec i)) (CHR ''0'') @ dec i @
                  (if fmt self = ''JPEG'' then ''.jpg'' else ''.png''))
             [1..<Suc (length (saved_files (steps (convert E self pdf out d))))]"
    using convert_saved_files [of E self pdf out d] unfolding shape .
  have len: "i < 10000 \<longrightarrow> length (replicate (4 - length (dec i)) (CHR ''0'') @ dec i) = 4"
    using length_fmt04d [of i] by (simp add: fmt04d_def)
  have "CHR ''/'' \<notin> set (replicate (4 - length (dec i)) (CHR ''0'') @ dec i)"
    using fmt04d_no_slash [of i] by (simp add: fmt04d_def)
  then have inside: "CHR ''/'' \<notin> set (?b @ ''_page'' @
                  replicate (4 - length (dec i)) (CHR ''0'') @ dec i @
                  (if fmt self = ''JPEG'' then ''.jpg'' else ''.png''))"
    using base_name_no_slash [of pdf] by auto
  from names len inside undec_dec [of i] show ?thesis
    by blast
qed

text \<open>C5 at the worked example, as PNG and as JPEG, and the page number of page 7.\<close>

theorem output_file_names_witness:
  "fmt deck_app = ''PNG'' \<and>
   saved_files (steps (convert good_engine deck_app ''/in/deck.pdf'' ''/out/img'' deck_disk)) =
     [''/out/img/deck_page0001.png'', ''/out/img/deck_page0002.png''] \<and>
   fmt (deck_app\<lparr>fmt := ''JPEG''\<rparr>) = ''JPEG'' \<and>
   saved_files (steps (convert good_engine (deck_app\<lparr>fmt := ''JPEG''\<rparr>)
       ''/in/deck.pdf'' ''/out/img'' deck_disk)) =
     [''/out/img/deck_page0001.jpg'', ''/out/img/deck_page0002.jpg''] \<and>
   undec (dec 7) = 7 \<and> (7 :: nat) < 10000 \<and>
   replicate (4 - length (dec 7)) (CHR ''0'') @ dec 7 = ''0007''"
proof -
  let ?jpg = "deck_app\<lparr>fmt := ''JPEG''\<rparr>"
  let ?w1 = "convert good_engine deck_app ''/in/deck.pdf'' ''/out/img'' deck_disk"
  let ?w2 = "convert good_engine ?jpg ''/in/deck.pdf'' ''/out/img'' deck_disk"
  have f1: "fmt deck_app = ''PNG''" and f2: "fmt ?jpg = ''JPEG''"
    by (simp_all add: deck_app_def)
  have n1: "length (saved_files (steps ?w1)) = 2" and n2: "length (saved_files (steps ?w2)) = 2"
    by code_simp+
  have b: "splitext_root (basename ''/in/deck.pdf'') = ''deck''"
    by code_simp
  have d1: "replicate (4 - length (dec (Suc 0))) (CHR ''0'') @ dec (Suc 0) = ''0001''"
    and d2: "dec 2 = ''2''" and d7: "replicate (4 - length (dec 7)) (CHR ''0'') @ dec 7 = ''0007''"
    and r3: "replicate 3 (CHR ''0'') = ''000''"
    by code_simp+
  have u: "[1..<Suc 2] = [1, 2]"
    by code_simp
  from output_file_names [of deck_app good_engine "''/in/deck.pdf''" "''/out/img''" deck_disk 7]
  have 1: "saved_files (steps ?w1) = [''/out/img/deck_page0001.png'', ''/out/img/deck_page0002.png'']"
    and 7: "undec (dec 7) = 7"
    unfolding n1 u b by (simp_all add: f1 d1 d2 r3)
  from output_file_names [of ?jpg good_engine "''/in/deck.pdf''" "''/out/img''" deck_disk 7]
  have 2: "saved_files (steps ?w2) = [''/out/img/deck_page0001.jpg'', ''/out/img/deck_page0002.jpg'']"
    unfolding n2 u b by (simp add: f2 d1 d2 r3)
  from f1 f2 1 2 7 d7 show ?thesis
    by simp
qed

section \<open>The rendering scale\<close>

text \<open>
  The loop asks the engine to render at the matrix it is given and at no other, it
  touches only the files of its pages, and the files of different pages differ, so that
  the image of a page is still on the disk when the loop ends.
\<close>

lemma page_loop_same_engine_at_scale:
  assumes "pix_save E' = pix_save E"
    and "\<forall>page. get_pixmap E' page mat = get_pixmap E page mat"
  shows "page_loop E' mat tot out b x ps d = page_loop E mat tot out b x ps d"
proof (induction ps arbitrary: d)
  case Nil
  show ?case by simp
next
  case (Cons a ps)
  obtain i page where a: "a = (i, page)"
    by (cases a)
  from assms(2) have g: "get_pixmap E' page mat = get_pixmap E page mat"
    by simp
  show ?case
  proof (cases "get_pixmap E page mat")
    case (Inl e)
    then show ?thesis by (simp add: a g)
  next
    case (Inr pix)
    show ?thesis
    proof (cases "pix_save E pix (out_file_of out b x i)")
      case (Some e)
      then show ?thesis by (simp add: a g Inr assms(1) Let_def)
    next
      case None
      define D where "D = d(out_file_of out b x i \<mapsto> Image pix)"
      have 1: "page_loop E' mat tot out b x (a # ps) d =
          (case page_loop E' mat tot out b x ps D of
             (st, d', r) \<Rightarrow>
               ([GetPixmap i mat, PixSave (out_file_of out b x i),
                 RootAfter (UpdateProgress i tot (out_file_of out b x i))] @ st, d', r))"
        unfolding D_def by (simp add: a g Inr None assms(1) Let_def)
      have 2: "page_loop E mat tot out b x (a # ps) d =
          (case page_loop E mat tot out b x ps D of
             (st, d', r) \<Rightarrow>
               ([GetPixmap i mat, PixSave (out_file_of out b x i),
                 RootAfter (UpdateProgress i tot (out_file_of out b x i))] @ st, d', r))"
        unfolding D_def by (simp add: a Inr None Let_def)
      show ?thesis
        unfolding 1 2 Cons.IH [of D] by (rule refl)
    qed
  qed
qed

lemma page_loop_other_files:
  assumes "q \<notin> set (map (\<lambda>(i, page). out_file_of out b x i) ps)"
  shows "fst (snd (page_loop E mat tot out b x ps d)) q = d q"
  using assms
proof (induction ps arbitrary: d)
  case Nil
  show ?case by simp
next
  case (Cons a ps)
  obtain i page where a: "a = (i, page)"
    by (cases a)
  from Cons.prems a have q: "q \<noteq> out_file_of out b x i"
    and rest: "q \<notin> set (map (\<lambda>(i, page). out_file_of out b x i) ps)"
    by auto
  show ?case
  proof (cases "get_pixmap E page mat")
    case (Inl e)
    then show ?thesis by (simp add: a)
  next
    case (Inr pix)
    show ?thesis
    proof (cases "pix_save E pix (out_file_of out b x i)")
      case (Some e)
      then show ?thesis by (simp add: a Inr Let_def)
    next
      case None
      define D where "D = d(out_file_of out b x i \<mapsto> Image pix)"
      obtain st d' r where pl: "page_loop E mat tot out b x ps D = (st, d', r)"
        by (cases "page_loop E mat tot out b x ps D")
      from Cons.IH [OF rest, of D] have "d' q = D q"
        by (simp add: pl)
      with q show ?thesis
        by (simp add: a Inr None Let_def pl [unfolded D_def] D_def)
    qed
  qed
qed

lemma page_loop_images:
  assumes "\<forall>(i, page) \<in> set ps. page_fails E mat (out_file_of out b x i) page = None"
    and "distinct (map (\<lambda>(i, page). out_file_of out b x i) ps)"
    and "(k, pg) \<in> set ps"
    and "get_pixmap E pg mat = Inr pix"
  shows "fst (snd (page_loop E mat tot out b x ps d)) (out_file_of out b x k) = Some (Image pix)"
  using assms(1-3)
proof (induction ps arbitrary: d)
  case Nil
  then show ?case by simp
next
  case (Cons a ps)
  obtain i page where a: "a = (i, page)"
    by (cases a)
  from Cons.prems(1) a obtain px where
    r: "get_pixmap E page mat = Inr px" and s: "pix_save E px (out_file_of out b x i) = None"
    by (auto simp: page_fails_def split: sum.splits)
  from Cons.prems(1) have rest: "\<forall>(i, page) \<in> set ps. page_fails E mat (out_file_of out b x i) page = None"
    by simp
  from Cons.prems(2) a have fresh: "out_file_of out b x i \<notin> set (map (\<lambda>(i, page). out_file_of out b x i) ps)"
    and dist: "distinct (map (\<lambda>(i, page). out_file_of out b x i) ps)"
    by simp_all
  define D where "D = d(out_file_of out b x i \<mapsto> Image px)"
  obtain st d' r' where pl: "page_loop E mat tot out b x ps D = (st, d', r')"
    by (cases "page_loop E mat tot out b x ps D")
  have res: "fst (snd (page_loop E mat tot out b x (a # ps) d)) = d'"
    by (simp add: a r s Let_def pl [unfolded D_def])
  show ?case
  proof (cases "(k, pg) = (i, page)")
    case True
    with assms(4) r have "px = pix"
      by simp
    moreover from page_loop_other_files [OF fresh, of E mat tot D]
    have "d' (out_file_of out b x i) = D (out_file_of out b x i)"
      by (simp add: pl)
    ultimately show ?thesis
      using True by (simp add: res D_def)
  next
    case False
    with Cons.prems(3) a have "(k, pg) \<in> set ps"
      by auto
    from Cons.IH [OF rest dist this, of D] show ?thesis
      by (simp add: res pl)
  qed
qed

lemma undec_zeros: "undec (replicate k (CHR ''0'') @ s) = undec s"
proof -
  have "foldl (\<lambda>a c. 10 * a + digit_val c) 0 (replicate k (CHR ''0'')) = 0"
    by (induction k) (simp_all add: digit_val_def)
  then show ?thesis
    by (simp add: undec_def)
qed

lemma undec_fmt04d: "undec (fmt04d i) = i"
  by (simp add: fmt04d_def undec_zeros undec_dec)

lemma out_file_of_inj:
  assumes "CHR ''/'' \<notin> set b" and "out_file_of out b x i = out_file_of out b x j"
  shows "i = j"
proof -
  from assms(2) have "fmt04d i = fmt04d j"
    unfolding out_file_of_shape [OF assms(1)] by simp
  then have "undec (fmt04d i) = undec (fmt04d j)"
    by simp
  then show ?thesis
    by (simp add: undec_fmt04d)
qed

lemma distinct_out_files:
  assumes "CHR ''/'' \<notin> set b"
  shows "distinct (map (\<lambda>(i, page). out_file_of out b x i) (enumerate n ps))"
proof -
  have "inj_on (out_file_of out b x) (set [n..<n + length ps])"
    using out_file_of_inj [OF assms] by (auto simp: inj_on_def)
  then have "distinct (map (out_file_of out b x) [n..<n + length ps])"
    by (simp add: distinct_map)
  then show ?thesis
    by (simp only: map_enumerate_fst)
qed

text \<open>
  \<^bold>\<open>C8.\<close> The scale is the requested DPI divided by 72, it is fixed before the loop, and
  it is the scale of every page. Every rendering step of the worker carries the matrix
  with these two scale factors. The worker asks the engine for no other scale: two
  engines that open and save alike and render alike at this one matrix give the same
  conversion, whatever they do at other scales. And what the engine renders at this
  matrix is what is stored: in a conversion where every page renders and saves, the file
  of each page holds the buffer that \<^verbatim>\<open>get_pixmap\<close> returns for that page at this
  matrix.
\<close>

theorem one_scale_for_all_pages:
  "matrices (steps (convert E self pdf out d)) =
     replicate (length (matrices (steps (convert E self pdf out d))))
       (of_int (dpi self) / 72, of_int (dpi self) / 72) \<and>
   (fitz_open E' = fitz_open E \<and> pix_save E' = pix_save E \<and>
    (\<forall>page. get_pixmap E' page (of_int (dpi self) / 72, of_int (dpi self) / 72) =
             get_pixmap E page (of_int (dpi self) / 72, of_int (dpi self) / 72)) \<longrightarrow>
      convert E' self pdf out d = convert E self pdf out d) \<and>
   (fitz_open E pdf = Inr doc \<and>
    (\<forall>(i, page) \<in> set (enumerate 1 doc).
        page_fails E (of_int (dpi self) / 72, of_int (dpi self) / 72)
          (out_file_of out (splitext_root (basename pdf)) (lower (fmt self)) i) page = None) \<and>
    k < length doc \<and>
    get_pixmap E (doc ! k) (of_int (dpi self) / 72, of_int (dpi self) / 72) = Inr pix \<longrightarrow>
      disk_after (convert E self pdf out d)
        (out_file_of out (splitext_root (basename pdf)) (lower (fmt self)) (Suc k)) =
      Some (Image pix))"
proof -
  let ?mat = "(of_int (dpi self) / 72 :: rat, of_int (dpi self) / 72 :: rat)"
  let ?b = "splitext_root (basename pdf)" and ?x = "lower (fmt self)"
  have recorded: "matrices (steps (convert E self pdf out d)) =
     replicate (length (matrices (steps (convert E self pdf out d)))) ?mat"
  proof (cases "fitz_open E pdf")
    case (Inl e)
    then show ?thesis by (simp add: convert_def)
  next
    case (Inr doc')
    let ?loop = "page_loop E ?mat (length doc') out ?b ?x (enumerate 1 doc') d"
    obtain st d' r where pl: "?loop = (st, d', r)"
      by (cases ?loop)
    have m: "matrices st = replicate (length (matrices st)) ?mat"
      using page_loop_matrices [of E ?mat "length doc'" out ?b ?x "enumerate 1 doc'" d]
      unfolding pl by simp
    have "matrices (steps (convert E self pdf out d)) = matrices st"
      by (cases r) (simp_all add: convert_def Inr Let_def pl matrices_append del: One_nat_def)
    with m show ?thesis
      by simp
  qed
  have same: "convert E' self pdf out d = convert E self pdf out d"
    if "fitz_open E' = fitz_open E" and "pix_save E' = pix_save E"
      and "\<forall>page. get_pixmap E' page ?mat = get_pixmap E page ?mat"
    unfolding convert_def Let_def that(1) page_loop_same_engine_at_scale [OF that(2,3)]
    by (rule refl)
  have stored: "disk_after (convert E self pdf out d) (out_file_of out ?b ?x (Suc k)) = Some (Image pix)"
    if opens: "fitz_open E pdf = Inr doc"
      and pages: "\<forall>(i, page) \<in> set (enumerate 1 doc).
        page_fails E ?mat (out_file_of out ?b ?x i) page = None"
      and k: "k < length doc" and pix: "get_pixmap E (doc ! k) ?mat = Inr pix"
  proof -
    let ?loop = "page_loop E ?mat (length doc) out ?b ?x (enumerate 1 doc) d"
    obtain st d' r where pl: "?loop = (st, d', r)"
      by (cases ?loop)
    have "(Suc k, doc ! k) \<in> set (enumerate 1 doc)"
      using k by (simp add: in_set_enumerate_eq)
    from page_loop_images [OF pages distinct_out_files [OF base_name_no_slash] this pix,
        of "length doc" d]
    have "d' (out_file_of out ?b ?x (Suc k)) = Some (Image pix)"
      unfolding pl by simp
    moreover have "disk_after (convert E self pdf out d) = d'"
      by (cases r) (simp_all add: convert_def opens Let_def pl del: One_nat_def)
    ultimately show ?thesis
      by simp
  qed
  from recorded same stored show ?thesis
    by blast
qed

text \<open>
  C8 at the worked example at 144 DPI, where the scale is 2: the engine that fails at every
  other scale converts as the first engine does, and the file of page 2 holds that page
  rendered at scale 2.
\<close>

theorem one_scale_for_all_pages_witness:
  "matrices (steps (convert good_engine app_144 ''/in/deck.pdf'' ''/out/img'' deck_disk)) =
     [(2, 2), (2, 2)] \<and>
   fitz_open scale_2_engine = fitz_open good_engine \<and>
   pix_save scale_2_engine = pix_save good_engine \<and>
   (\<forall>page. get_pixmap scale_2_engine page (2, 2) = get_pixmap good_engine page (2, 2)) \<and>
   get_pixmap scale_2_engine 10 (1, 1) \<noteq> get_pixmap good_engine 10 (1, 1) \<and>
   convert scale_2_engine app_144 ''/in/deck.pdf'' ''/out/img'' deck_disk =
     convert good_engine app_144 ''/in/deck.pdf'' ''/out/img'' deck_disk \<and>
   fitz_open good_engine ''/in/deck.pdf'' = Inr [10, 20] \<and>
   page_fails good_engine (2, 2) ''/out/img/deck_page0001.png'' 10 = None \<and>
   page_fails good_engine (2, 2) ''/out/img/deck_page0002.png'' 20 = None \<and>
   get_pixmap good_engine ([10, 20] ! 1) (2, 2) = Inr 21 \<and>
   disk_after (convert good_engine app_144 ''/in/deck.pdf'' ''/out/img'' deck_disk)
     ''/out/img/deck_page0002.png'' = Some (Image 21)"
proof -
  let ?w = "convert good_engine app_144 ''/in/deck.pdf'' ''/out/img'' deck_disk"
  have z: "(of_int (dpi app_144) / 72 :: rat) = 2"
    by (simp add: app_144_def)
  have n: "length (matrices (steps ?w)) = 2"
    by code_simp
  have r: "replicate 2 (2 :: rat, 2 :: rat) = [(2, 2), (2, 2)]"
    by code_simp
  have o: "fitz_open scale_2_engine = fitz_open good_engine"
    and s: "pix_save scale_2_engine = pix_save good_engine"
    and g: "\<forall>page. get_pixmap scale_2_engine page (2, 2) = get_pixmap good_engine page (2, 2)"
    and g': "get_pixmap scale_2_engine 10 (1, 1) \<noteq> get_pixmap good_engine 10 (1, 1)"
    by (simp_all add: scale_2_engine_def good_engine_def)
  have op: "fitz_open good_engine ''/in/deck.pdf'' = Inr [10, 20]"
    by (simp add: good_engine_def)
  have f1: "out_file_of ''/out/img'' (splitext_root (basename ''/in/deck.pdf'')) (lower (fmt app_144)) 1 =
      ''/out/img/deck_page0001.png''"
    by code_simp
  have f2: "out_file_of ''/out/img'' (splitext_root (basename ''/in/deck.pdf'')) (lower (fmt app_144))
      (Suc 1) = ''/out/img/deck_page0002.png''"
    by code_simp
  have p1: "page_fails good_engine (2, 2) ''/out/img/deck_page0001.png'' 10 = None"
    and p2: "page_fails good_engine (2, 2) ''/out/img/deck_page0002.png'' 20 = None"
    by (simp_all add: page_fails_def good_engine_def)
  have pages: "\<forall>(i, page) \<in> set (enumerate 1 [10, 20 :: nat]).
      page_fails good_engine (2, 2)
        (out_file_of ''/out/img'' (splitext_root (basename ''/in/deck.pdf'')) (lower (fmt app_144)) i)
        page = None"
    using f1 f2 p1 p2 by simp
  have k: "(1 :: nat) < length [10, 20 :: nat]"
    by simp
  have px: "get_pixmap good_engine ([10, 20] ! 1) (2, 2) = Inr 21"
    by (simp add: good_engine_def)
  note T = one_scale_for_all_pages [where E = good_engine and E' = scale_2_engine
      and self = app_144 and pdf = "''/in/deck.pdf''" and out = "''/out/img''" and d = deck_disk
      and doc = "[10, 20]" and k = 1 and pix = 21, unfolded z]
  from T have m: "matrices (steps ?w) = [(2, 2), (2, 2)]"
    unfolding n r by blast
  from T o s g have c: "convert scale_2_engine app_144 ''/in/deck.pdf'' ''/out/img'' deck_disk = ?w"
    by blast
  from T op pages k px have "disk_after ?w
      (out_file_of ''/out/img'' (splitext_root (basename ''/in/deck.pdf'')) (lower (fmt app_144))
        (Suc 1)) = Some (Image 21)"
    by blast
  then have st: "disk_after ?w ''/out/img/deck_page0002.png'' = Some (Image 21)"
    unfolding f2 .
  from m o s g g' c op p1 p2 px st show ?thesis
    by blast
qed

section \<open>A conversion that fails\<close>

text \<open>
  What the worker does when the document cannot be opened and when a page fails: it
  schedules the error callback and nothing after it, and it does not close the document.
  The error callback delivers the message only while the worker is still inside the
  \<^verbatim>\<open>except\<close> clause; run after the clause has ended it raises \<^verbatim>\<open>NameError\<close>.
\<close>

lemma convert_open_failure:
  assumes "fitz_open E pdf = Inl e"
  shows "steps (convert E self pdf out d) = [FitzOpen pdf, RootAfter ConversionError] \<and>
         caught (convert E self pdf out d) = Some e \<and>
         disk_after (convert E self pdf out d) = d"
  using assms by (simp add: convert_def)

lemma convert_page_failure:
  assumes opens: "fitz_open E pdf = Inr (pre @ bad # post)"
    and pages: "\<forall>(i, page) \<in> set (enumerate 1 pre).
        page_fails E (of_int (dpi self) / 72, of_int (dpi self) / 72)
          (out_file_of out (splitext_root (basename pdf)) (lower (fmt self)) i) page = None"
    and fails: "page_fails E (of_int (dpi self) / 72, of_int (dpi self) / 72)
          (out_file_of out (splitext_root (basename pdf)) (lower (fmt self)) (Suc (length pre)))
          bad = Some e"
  shows "scheduled (steps (convert E self pdf out d)) =
           ConfigureProgress (length (pre @ bad # post)) #
           LogStarted (length (pre @ bad # post)) (dpi self) (upper (lower (fmt self))) #
           map (\<lambda>i. UpdateProgress i (length (pre @ bad # post))
                  (out_file_of out (splitext_root (basename pdf)) (lower (fmt self)) i))
             [1..<Suc (length pre)] @
           [ConversionError] \<and>
         caught (convert E self pdf out d) = Some e \<and>
         DocClose \<notin> set (steps (convert E self pdf out d))"
proof -
  let ?mat = "(of_int (dpi self) / 72 :: rat, of_int (dpi self) / 72 :: rat)"
  let ?b = "splitext_root (basename pdf)" and ?x = "lower (fmt self)"
  define doc where "doc = pre @ bad # post"
  define ps where "ps = enumerate 1 doc"
  have opens': "fitz_open E pdf = Inr doc"
    by (simp add: opens doc_def)
  have en: "ps = enumerate 1 pre @ (Suc (length pre), bad) # enumerate (Suc (Suc (length pre))) post"
    by (simp add: ps_def doc_def enumerate_append_eq)
  obtain st d' where pl: "page_loop E ?mat (length doc) out ?b ?x ps d = (st, d', Some e)"
    and st: "scheduled st =
      map (\<lambda>(i, page). UpdateProgress i (length doc) (out_file_of out ?b ?x i)) (enumerate 1 pre)"
      "DocClose \<notin> set st"
    using page_loop_failing_page [OF pages fails, of "length doc"
        "enumerate (Suc (Suc (length pre))) post" d]
    unfolding en [symmetric] by (cases "page_loop E ?mat (length doc) out ?b ?x ps d") auto
  have st': "scheduled st =
      map (\<lambda>i. UpdateProgress i (length doc) (out_file_of out ?b ?x i)) [1..<Suc (length pre)]"
    unfolding st map_enumerate_fst by simp
  have c: "steps (convert E self pdf out d) =
      [FitzOpen pdf, RootAfter (ConfigureProgress (length doc)),
       RootAfter (LogStarted (length doc) (dpi self) (upper ?x))] @ st @
      [RootAfter ConversionError]"
    and e: "caught (convert E self pdf out d) = Some e"
    by (simp_all add: convert_def opens' Let_def pl [unfolded ps_def] del: One_nat_def)
  have "scheduled (steps (convert E self pdf out d)) =
           ConfigureProgress (length doc) #
           LogStarted (length doc) (dpi self) (upper ?x) #
           map (\<lambda>i. UpdateProgress i (length doc) (out_file_of out ?b ?x i)) [1..<Suc (length pre)] @
           [ConversionError] \<and>
         caught (convert E self pdf out d) = Some e \<and>
         DocClose \<notin> set (steps (convert E self pdf out d))"
    unfolding c e by (simp add: scheduled_append st' st(2) del: upt_Suc)
  then show ?thesis
    unfolding doc_def .
qed

lemma error_callback_inside_except:
  assumes "caught w = Some e"
  shows "run_callback (frame_e w True) ConversionError self = Inr (conversion_error e self)"
  using assms by (simp add: run_callback_def frame_e_def)

lemma error_callback_after_except:
  "run_callback (frame_e w False) ConversionError self = Inl ''NameError''"
  by (simp add: run_callback_def frame_e_def)

text \<open>
  \<^bold>\<open>C2\<close> at a failing input: the deck of two pages whose second page cannot be rendered.
  One progress update is scheduled, for page 1, then the error callback, and the file of
  page 1 stays on the disk. The exception is caught, but once the worker has left the
  \<^verbatim>\<open>except\<close> clause the error callback raises \<^verbatim>\<open>NameError\<close> instead of calling
  \<^verbatim>\<open>_conversion_error\<close>: the observer gets no failure event and no message, and the
  running flag stays set.
\<close>

theorem page_failure_message_is_lost:
  "scheduled (steps (convert bad_page_engine deck_app ''/in/deck.pdf'' ''/out/img'' deck_disk)) =
     [ConfigureProgress 2, LogStarted 2 200 ''PNG'',
      UpdateProgress 1 2 ''/out/img/deck_page0001.png'', ConversionError] \<and>
   caught (convert bad_page_engine deck_app ''/in/deck.pdf'' ''/out/img'' deck_disk) =
     Some ''cannot render'' \<and>
   disk_after (convert bad_page_engine deck_app ''/in/deck.pdf'' ''/out/img'' deck_disk)
     ''/out/img/deck_page0001.png'' = Some (Image 11) \<and>
   run_callback
     (frame_e (convert bad_page_engine deck_app ''/in/deck.pdf'' ''/out/img'' deck_disk) False)
     ConversionError running_app = Inl ''NameError'' \<and>
   events
     (frame_e (convert bad_page_engine deck_app ''/in/deck.pdf'' ''/out/img'' deck_disk) False)
     (scheduled (steps (convert bad_page_engine deck_app ''/in/deck.pdf'' ''/out/img'' deck_disk))) =
     [Started 2, PageDone 1 1 ''/out/img/deck_page0001.png''] \<and>
   is_running (mainloop
     (frame_e (convert bad_page_engine deck_app ''/in/deck.pdf'' ''/out/img'' deck_disk) False)
     (scheduled (steps (convert bad_page_engine deck_app ''/in/deck.pdf'' ''/out/img'' deck_disk)))
     running_app)"
  by code_simp

text \<open>
  \<^bold>\<open>C4\<close> at the same failing input: the steps of the worker end with the error callback
  and hold no \<^verbatim>\<open>doc.close()\<close>, although the document was opened. On the successful
  path the document is closed just before the completion callback is scheduled.
\<close>

theorem page_failure_leaves_document_open:
  "steps (convert bad_page_engine deck_app ''/in/deck.pdf'' ''/out/img'' deck_disk) =
     [FitzOpen ''/in/deck.pdf'', RootAfter (ConfigureProgress 2),
      RootAfter (LogStarted 2 200 ''PNG''),
      GetPixmap 1 (25 / 9, 25 / 9), PixSave ''/out/img/deck_page0001.png'',
      RootAfter (UpdateProgress 1 2 ''/out/img/deck_page0001.png''),
      GetPixmap 2 (25 / 9, 25 / 9), RootAfter ConversionError] \<and>
   DocClose \<notin> set (steps (convert bad_page_engine deck_app ''/in/deck.pdf'' ''/out/img'' deck_disk)) \<and>
   steps (convert good_engine deck_app ''/in/deck.pdf'' ''/out/img'' deck_disk) =
     [FitzOpen ''/in/deck.pdf'', RootAfter (ConfigureProgress 2),
      RootAfter (LogStarted 2 200 ''PNG''),
      GetPixmap 1 (25 / 9, 25 / 9), PixSave ''/out/img/deck_page0001.png'',
      RootAfter (UpdateProgress 1 2 ''/out/img/deck_page0001.png''),
      GetPixmap 2 (25 / 9, 25 / 9), PixSave ''/out/img/deck_page0002.png'',
      RootAfter (UpdateProgress 2 2 ''/out/img/deck_page0002.png''),
      DocClose, RootAfter (ConversionDone 2 ''/out/img'')]"
  by code_simp

text \<open>
  \<^bold>\<open>C7\<close> at a failing input: a file that the engine cannot open. The worker schedules the
  error callback alone: no start announcement and no progress update. Run after the
  worker has left the \<^verbatim>\<open>except\<close> clause, the callback raises \<^verbatim>\<open>NameError\<close>: no failure
  event with a message reaches the observer, and the running flag stays set.
\<close>

theorem open_failure_message_is_lost:
  "steps (convert corrupt_engine deck_app ''/in/deck.pdf'' ''/out/img'' deck_disk) =
     [FitzOpen ''/in/deck.pdf'', RootAfter ConversionError] \<and>
   caught (convert corrupt_engine deck_app ''/in/deck.pdf'' ''/out/img'' deck_disk) =
     Some ''cannot open broken document'' \<and>
   run_callback
     (frame_e (convert corrupt_engine deck_app ''/in/deck.pdf'' ''/out/img'' deck_disk) False)
     ConversionError running_app = Inl ''NameError'' \<and>
   events
     (frame_e (convert corrupt_engine deck_app ''/in/deck.pdf'' ''/out/img'' deck_disk) False)
     (scheduled (steps (convert corrupt_engine deck_app ''/in/deck.pdf'' ''/out/img'' deck_disk))) = [] \<and>
   is_running (mainloop
     (frame_e (convert corrupt_engine deck_app ''/in/deck.pdf'' ''/out/img'' deck_disk) False)
     (scheduled (steps (convert corrupt_engine deck_app ''/in/deck.pdf'' ''/out/img'' deck_disk)))
     running_app)"
  by code_simp

section \<open>The running flag\<close>

text \<open>
  The flag in the handlers as the main loop runs them, one at a time: Tk runs every
  handler to its end before it starts the next, and the program has no lock and no atomic
  operation of its own. A start spawns a worker only when the flag is clear, and a start
  that finds it set returns; the callbacks that report progress leave the flag alone; the
  worker schedules one of the two final callbacks, last.
\<close>

lemma start_spawns_only_when_idle:
  assumes "fst (start_conversion refuses self d) = Spawned p out"
  shows "\<not> is_running self \<and> is_running (fst (snd (start_conversion refuses self d))) \<and>
         p = strip (pdf_path self) \<and> out = strip (output_dir self)"
  using assms
  by (auto simp: start_conversion_def Let_def split: if_splits prod.splits option.splits)

lemma running_start_returns:
  assumes "is_running self"
  shows "fst (start_conversion refuses self d) = Returned \<and>
         is_running (fst (snd (start_conversion refuses self d)))"
  using assms by (simp add: start_conversion_def Let_def)

lemma second_start_does_not_spawn:
  assumes "fst (start_conversion refuses self d) = Spawned p out"
  shows "fst (start_conversion refuses' (fst (snd (start_conversion refuses self d)))
           (snd (snd (start_conversion refuses self d)))) = Returned"
  using start_spawns_only_when_idle [OF assms] running_start_returns by blast

lemma nonterminal_callback_keeps_flag:
  assumes "\<not> is_terminal cb"
  shows "\<exists>s'. run_callback e cb s = Inr s' \<and> is_running s' = is_running s"
  using assms by (cases cb) (simp_all add: run_callback_def update_progress_def app_log_def)

lemma only_terminal_callbacks_clear_flag:
  assumes "run_callback e cb s = Inr s'" and "is_running s" and "\<not> is_running s'"
  shows "is_terminal cb"
  using assms nonterminal_callback_keeps_flag [of cb e s] by auto

lemma terminal_callbacks_clear_flag:
  "\<not> is_running (conversion_done n out s) \<and> \<not> is_running (conversion_error err s)"
  by (simp add: conversion_done_def conversion_error_def app_log_def Let_def)

lemma mainloop_keeps_flag:
  assumes "list_all (\<lambda>cb. \<not> is_terminal cb) cbs"
  shows "is_running (mainloop e cbs s) = is_running s"
  using assms
proof (induction cbs arbitrary: s)
  case Nil
  show ?case by simp
next
  case (Cons cb cbs)
  then obtain s' where s': "run_callback e cb s = Inr s'" "is_running s' = is_running s"
    using nonterminal_callback_keeps_flag [of cb e s] by auto
  from Cons have "is_running (mainloop e cbs s') = is_running s'"
    by simp
  with s' show ?case
    by simp
qed

lemma page_loop_schedules_progress_only:
  "list_all (\<lambda>cb. \<not> is_terminal cb) (scheduled (fst (page_loop E mat tot out b x ps d)))"
proof (induction ps arbitrary: d)
  case Nil
  show ?case by simp
next
  case (Cons a ps)
  obtain i page where a: "a = (i, page)"
    by (cases a)
  show ?case
  proof (cases "get_pixmap E page mat")
    case (Inl e)
    then show ?thesis by (simp add: a)
  next
    case (Inr pix)
    show ?thesis
    proof (cases "pix_save E pix (out_file_of out b x i)")
      case (Some e)
      then show ?thesis by (simp add: a Inr Let_def)
    next
      case None
      define D where "D = d(out_file_of out b x i \<mapsto> Image pix)"
      obtain st d' r where pl: "page_loop E mat tot out b x ps D = (st, d', r)"
        by (cases "page_loop E mat tot out b x ps D")
      from Cons.IH [of D] show ?thesis
        unfolding pl by (simp add: a Inr None pl [unfolded D_def] Let_def)
    qed
  qed
qed

lemma convert_schedules_terminal_last:
  "is_terminal (last (scheduled (steps (convert E self pdf out d)))) \<and>
   list_all (\<lambda>cb. \<not> is_terminal cb) (butlast (scheduled (steps (convert E self pdf out d))))"
proof (cases "fitz_open E pdf")
  case (Inl e)
  then show ?thesis by (simp add: convert_def)
next
  case (Inr doc)
  let ?mat = "(of_int (dpi self) / 72 :: rat, of_int (dpi self) / 72 :: rat)"
  let ?loop = "page_loop E ?mat (length doc) out (splitext_root (basename pdf)) (lower (fmt self))
      (enumerate 1 doc) d"
  obtain st d' r where pl: "?loop = (st, d', r)"
    by (cases ?loop)
  have st: "list_all (\<lambda>cb. \<not> is_terminal cb) (scheduled st)"
    using page_loop_schedules_progress_only [of E ?mat "length doc" out
        "splitext_root (basename pdf)" "lower (fmt self)" "enumerate 1 doc" d]
    unfolding pl by simp
  obtain t where sch: "scheduled (steps (convert E self pdf out d)) =
      (ConfigureProgress (length doc) #
       LogStarted (length doc) (dpi self) (upper (lower (fmt self))) # scheduled st) @ [t]"
    and t: "is_terminal t"
    by (cases r) (simp_all add: convert_def Inr Let_def pl scheduled_append del: One_nat_def)
  show ?thesis
    unfolding sch using t st by (simp del: append_Cons)
qed

text \<open>
  \<^bold>\<open>C9\<close> says that the running flag is the only state the starter and the task share. It
  is not. With the flag the same, the worker saves other files when the format of the
  application differs and renders at another scale when its DPI differs: it reads both
  from the application when it runs. And the state of the start button is written by
  \<^verbatim>\<open>_start_conversion\<close>, which disables it, and by the final callback, which enables it.
\<close>

theorem flag_is_not_the_only_shared_state:
  "is_running (deck_app\<lparr>fmt := ''JPEG''\<rparr>) = is_running deck_app \<and>
   saved_files (steps (convert good_engine (deck_app\<lparr>fmt := ''JPEG''\<rparr>)
       ''/in/deck.pdf'' ''/out/img'' deck_disk)) \<noteq>
   saved_files (steps (convert good_engine deck_app ''/in/deck.pdf'' ''/out/img'' deck_disk)) \<and>
   is_running app_144 = is_running deck_app \<and>
   matrices (steps (convert good_engine app_144 ''/in/deck.pdf'' ''/out/img'' deck_disk)) \<noteq>
   matrices (steps (convert good_engine deck_app ''/in/deck.pdf'' ''/out/img'' deck_disk)) \<and>
   btn_run_enabled deck_app \<and>
   \<not> btn_run_enabled (fst (snd (start_conversion no_refusal deck_app deck_disk))) \<and>
   \<not> btn_run_enabled running_app \<and>
   btn_run_enabled (conversion_done 2 ''/out/img'' running_app)"
  by code_simp

text \<open>
  \<^bold>\<open>C9, amended.\<close> Starter and task share the running flag, the start button, and the
  format and DPI that the worker reads when it runs. For the flag: a start spawns the
  worker only when the flag is clear and has set it when the worker is spawned; a start
  that finds the flag set returns and leaves it set, so of two starts that the main loop
  runs one after the other only the first proceeds; a callback that clears the flag is one
  of the two final callbacks; the worker schedules a final callback last, and the flag stays
  set while the callbacks scheduled before it run; both final callbacks clear the flag.
\<close>

theorem running_flag_protocol:
  "(fst (start_conversion refuses self d) = Spawned p out \<longrightarrow>
      \<not> is_running self \<and>
      is_running (fst (snd (start_conversion refuses self d))) \<and>
      fst (start_conversion refuses' (fst (snd (start_conversion refuses self d)))
             (snd (snd (start_conversion refuses self d)))) = Returned) \<and>
   (is_running self \<longrightarrow>
      fst (start_conversion refuses self d) = Returned \<and>
      is_running (fst (snd (start_conversion refuses self d)))) \<and>
   (is_running s \<and> run_callback e cb s = Inr s' \<and> \<not> is_running s' \<longrightarrow> is_terminal cb) \<and>
   is_terminal (last (scheduled (steps (convert E self pdf out' dk)))) \<and>
   (is_running s \<longrightarrow>
      is_running (mainloop e (butlast (scheduled (steps (convert E self pdf out' dk)))) s)) \<and>
   \<not> is_running (conversion_done n dir s) \<and>
   \<not> is_running (conversion_error err s)"
proof -
  have a: "fst (start_conversion refuses self d) = Spawned p out \<longrightarrow>
      \<not> is_running self \<and>
      is_running (fst (snd (start_conversion refuses self d))) \<and>
      fst (start_conversion refuses' (fst (snd (start_conversion refuses self d)))
             (snd (snd (start_conversion refuses self d)))) = Returned"
    using start_spawns_only_when_idle [of refuses self d p out]
      second_start_does_not_spawn [of refuses self d p out refuses'] by blast
  have b: "is_running self \<longrightarrow>
      fst (start_conversion refuses self d) = Returned \<and>
      is_running (fst (snd (start_conversion refuses self d)))"
    using running_start_returns [of self refuses d] by blast
  have c: "is_running s \<and> run_callback e cb s = Inr s' \<and> \<not> is_running s' \<longrightarrow> is_terminal cb"
    using only_terminal_callbacks_clear_flag [of e cb s s'] by blast
  have t: "is_terminal (last (scheduled (steps (convert E self pdf out' dk))))"
    and nt: "list_all (\<lambda>cb. \<not> is_terminal cb)
      (butlast (scheduled (steps (convert E self pdf out' dk))))"
    using convert_schedules_terminal_last [of E self pdf out' dk] by simp_all
  have m: "is_running s \<longrightarrow>
      is_running (mainloop e (butlast (scheduled (steps (convert E self pdf out' dk)))) s)"
    using mainloop_keeps_flag [OF nt, of e s] by simp
  from a b c t m terminal_callbacks_clear_flag [of n dir s err] show ?thesis
    by blast
qed

text \<open>
  C9, amended, at the worked example: the first start spawns and the second returns; the
  completion callback clears the flag and is final; the conversion of the deck schedules
  a final callback last and keeps the flag set until then.
\<close>

theorem running_flag_protocol_witness:
  "fst (start_conversion no_refusal deck_app deck_disk) = Spawned ''/in/deck.pdf'' ''/out/img'' \<and>
   \<not> is_running deck_app \<and>
   is_running (fst (snd (start_conversion no_refusal deck_app deck_disk))) \<and>
   fst (start_conversion no_refusal (fst (snd (start_conversion no_refusal deck_app deck_disk)))
          (snd (snd (start_conversion no_refusal deck_app deck_disk)))) = Returned \<and>
   is_running running_app \<and>
   fst (start_conversion no_refusal running_app deck_disk) = Returned \<and>
   run_callback None (ConversionDone 2 ''/out/img'') running_app =
     Inr (conversion_done 2 ''/out/img'' running_app) \<and>
   \<not> is_running (conversion_done 2 ''/out/img'' running_app) \<and>
   is_terminal (ConversionDone 2 ''/out/img'') \<and>
   is_terminal (last (scheduled (steps
     (convert good_engine deck_app ''/in/deck.pdf'' ''/out/img'' deck_disk)))) \<and>
   is_running (mainloop None (butlast (scheduled (steps
     (convert good_engine deck_app ''/in/deck.pdf'' ''/out/img'' deck_disk)))) running_app)"
proof -
  have sp: "fst (start_conversion no_refusal deck_app deck_disk) =
      Spawned ''/in/deck.pdf'' ''/out/img''"
    by code_simp
  have ru: "is_running running_app"
    by (simp add: running_app_def)
  have cb: "run_callback None (ConversionDone 2 ''/out/img'') running_app =
      Inr (conversion_done 2 ''/out/img'' running_app)"
    by (simp add: run_callback_def)
  have cl: "\<not> is_running (conversion_done 2 ''/out/img'' running_app)"
    by (simp add: conversion_done_def app_log_def Let_def)
  note T1 = running_flag_protocol [where refuses = no_refusal and refuses' = no_refusal
      and self = deck_app and d = deck_disk and p = "''/in/deck.pdf''" and out = "''/out/img''"
      and s = running_app and e = None and cb = "ConversionDone 2 ''/out/img''"
      and s' = "conversion_done 2 ''/out/img'' running_app" and E = good_engine
      and pdf = "''/in/deck.pdf''" and out' = "''/out/img''" and dk = deck_disk
      and n = 2 and dir = "''/out/img''" and err = "''x''"]
  note T2 = running_flag_protocol [where refuses = no_refusal and refuses' = no_refusal
      and self = running_app and d = deck_disk and p = "''/in/deck.pdf''" and out = "''/out/img''"
      and s = running_app and e = None and cb = "ConversionDone 2 ''/out/img''"
      and s' = "conversion_done 2 ''/out/img'' running_app" and E = good_engine
      and pdf = "''/in/deck.pdf''" and out' = "''/out/img''" and dk = deck_disk
      and n = 2 and dir = "''/out/img''" and err = "''x''"]
  from T1 sp ru cb cl T2 show ?thesis
    by blast
qed

end
